theory Spec2Isabelle
  imports Main "HOL-Library.Word"
begin

section \<open>The CoAP status server of fake-shelly (src/coap-server.js)\<close>

text \<open>
  The development embeds \<^verbatim>\<open>src/coap-server.js\<close>: the option codec registered by
  \<^verbatim>\<open>CoapServer.registerOptions\<close>, the device identifier, the class \<^verbatim>\<open>CoapServer\<close>
  with its serial counter, its re-broadcast timer and its two listeners, and the request
  handler.

  Conventions. A JavaScript string is a \<open>string\<close>; its characters are the code units of
  the string, for code units below 256. An integer-valued Number is an \<open>int\<close>, rounded to a double where the code
  computes with it or prints it; the result
  of \<^verbatim>\<open>parseInt\<close> is a \<open>js_number\<close>, which adds \<^verbatim>\<open>NaN\<close>. A Buffer is a list of bytes.
  A \<^verbatim>\<open>throw\<close> is the \<open>Inl\<close> of a sum, or the \<open>Some\<close> beside the state the call
  leaves behind. Identifiers of the source that start with an underscore lose it
  (\<^verbatim>\<open>_serial\<close> is \<open>serial\<close>, \<^verbatim>\<open>_broadcastStatus\<close> is \<open>broadcastStatus\<close>).
\<close>

subsection \<open>Values of the runtime\<close>

type_synonym byte = "8 word"

type_synonym Buffer = "byte list"

datatype js_error =
  ERR_OUT_OF_RANGE
  | ERR_BUFFER_OUT_OF_BOUNDS
  | ERR_INVALID_ARG_TYPE
  | Error string

datatype js_number = NaN | Number int

datatype js_value = JStr string | JNum int

subsection \<open>Numbers\<close>

text \<open>
  A Number is a double. \<open>round_double\<close> is the Number nearest to a natural number, ties
  going to the even significand; up to \<open>2^53\<close> every integer is a Number. \<open>JNum n\<close>
  is the Number that the integer \<open>n\<close> denotes, \<open>Number_of_int n\<close>, and
  \<^verbatim>\<open>x + 1\<close> on Numbers is \<open>Number_of_int (x + 1)\<close>. A magnitude that rounds to
  \<open>2^1024\<close> or more is \<^verbatim>\<open>Infinity\<close>.
\<close>

fun bitlen :: "nat \<Rightarrow> nat" where
  "bitlen n = (if n = 0 then 0 else Suc (bitlen (n div 2)))"

declare bitlen.simps [simp del]

definition round_double :: "nat \<Rightarrow> nat" where
  "round_double y =
     (if y < 2 ^ 53 then y
      else let e = bitlen y - 53; q = y div 2 ^ e; r = y mod 2 ^ e; half = 2 ^ (e - 1)
           in (if half < r \<or> (r = half \<and> odd q) then q + 1 else q) * 2 ^ e)"

definition Number_of_int :: "int \<Rightarrow> int" where
  "Number_of_int n = (if n < 0 then - int (round_double (nat (- n))) else int (round_double (nat n)))"

definition Number_isSafeInteger :: "int \<Rightarrow> bool" where
  "Number_isSafeInteger n \<longleftrightarrow> - (2 ^ 53) < n \<and> n < 2 ^ 53"

subsection \<open>Number to string, string to integer\<close>

text \<open>
  \<^verbatim>\<open>parseInt(x)\<close> first converts \<open>x\<close> to a string. For a Number that is
  \<^verbatim>\<open>Number.prototype.toString\<close>: the decimal numeral of the value with the fewest
  significant digits that still reads back as the same Number (the closest to it, if there
  are several), written out with zeros when it has at most 21 digits and in exponent
  notation otherwise. Up to \<open>2^53\<close> that numeral is the integer's own. So
  \<^verbatim>\<open>String(2**60)\<close> is \<^verbatim>\<open>1152921504606847000\<close> and \<^verbatim>\<open>String(1e21)\<close> is
  \<^verbatim>\<open>1e+21\<close>.
\<close>

definition digit_char :: "nat \<Rightarrow> char" where
  "digit_char d = char_of (48 + d)"

fun decimal :: "nat \<Rightarrow> string" where
  "decimal n = (if n < 10 then [digit_char n] else decimal (n div 10) @ [digit_char (n mod 10)])"

declare decimal.simps [simp del]

definition shortest_at :: "nat \<Rightarrow> nat \<Rightarrow> nat option" where
  "shortest_at v k =
     (let g = 10 ^ (length (decimal v) - k); lo = v div g * g; hi = lo + g;
          oklo = (round_double lo = v); okhi = (round_double hi = v)
      in if oklo \<and> okhi
         then (if v - lo < hi - v then Some lo
               else if hi - v < v - lo then Some hi
               else if even (lo div g) then Some lo else Some hi)
         else if oklo then Some lo
         else if okhi then Some hi
         else None)"

fun shortest_from :: "nat \<Rightarrow> nat list \<Rightarrow> nat" where
  "shortest_from v [] = v"
| "shortest_from v (k # ks) = (case shortest_at v k of Some c \<Rightarrow> c | None \<Rightarrow> shortest_from v ks)"

definition shortest :: "nat \<Rightarrow> nat" where
  "shortest v = shortest_from v [1..<Suc (length (decimal v))]"

definition strip_zeros :: "string \<Rightarrow> string" where
  "strip_zeros ds = rev (dropWhile (\<lambda>c. c = CHR ''0'') (rev ds))"

definition Number_toString_large :: "nat \<Rightarrow> string" where
  "Number_toString_large v =
     (if 2 ^ 1024 \<le> v then ''Infinity''
      else let c = decimal (shortest v); n = length c; s = strip_zeros c
           in if n \<le> 21 then c
              else (if length s = 1 then s else hd s # CHR ''.'' # tl s) @ ''e+'' @ decimal (n - 1))"

definition Number_toString :: "int \<Rightarrow> string" where
  "Number_toString n =
     (let v = round_double (nat \<bar>n\<bar>);
          digits = (if v \<le> 2 ^ 53 then decimal v else Number_toString_large v)
      in if n < 0 then CHR ''-'' # digits else digits)"

fun ToString :: "js_value \<Rightarrow> string" where
  "ToString (JStr s) = s"
| "ToString (JNum n) = Number_toString n"

text \<open>
  \<^verbatim>\<open>parseInt(string)\<close> with no radix, as ECMAScript defines it: leading white space is
  dropped, one sign is read, a prefix \<^verbatim>\<open>0x\<close> or \<^verbatim>\<open>0X\<close> selects radix 16 (otherwise
  10), and the longest prefix of digits of the radix is the value; with no digit the
  result is \<^verbatim>\<open>NaN\<close>. The value is kept as a mathematical integer: the callers below only
  compare it with \<open>0\<close> and \<open>65535\<close> and use it inside that range, where the
  Number is exact.
\<close>

definition isWhiteSpace :: "char \<Rightarrow> bool" where
  "isWhiteSpace c \<longleftrightarrow> (of_char c :: nat) \<in> {9, 10, 11, 12, 13, 32, 160}"

definition digitValue :: "char \<Rightarrow> nat option" where
  "digitValue c =
     (let n = (of_char c :: nat) in
      if 48 \<le> n \<and> n \<le> 57 then Some (n - 48)
      else if 97 \<le> n \<and> n \<le> 122 then Some (n - 87)
      else if 65 \<le> n \<and> n \<le> 90 then Some (n - 55)
      else None)"

definition isRadixDigit :: "nat \<Rightarrow> char \<Rightarrow> bool" where
  "isRadixDigit R c = (case digitValue c of None \<Rightarrow> False | Some d \<Rightarrow> d < R)"

definition mathInt :: "nat \<Rightarrow> string \<Rightarrow> nat" where
  "mathInt R Z = foldl (\<lambda>a c. a * R + (case digitValue c of None \<Rightarrow> 0 | Some d \<Rightarrow> d)) 0 Z"

definition parseInt_string :: "string \<Rightarrow> js_number" where
  "parseInt_string inputString =
     (let S = dropWhile isWhiteSpace inputString;
          sign = (if S \<noteq> [] \<and> hd S = CHR ''-'' then - 1 else 1 :: int);
          S1 = (if S \<noteq> [] \<and> (hd S = CHR ''+'' \<or> hd S = CHR ''-'') then tl S else S);
          stripPrefix = (take 2 S1 = ''0x'' \<or> take 2 S1 = ''0X'');
          R = (if stripPrefix then 16 else 10);
          S2 = (if stripPrefix then drop 2 S1 else S1);
          Z = takeWhile (isRadixDigit R) S2
      in if Z = [] then NaN else Number (sign * int (mathInt R Z)))"

definition parseInt :: "js_value \<Rightarrow> js_number" where
  "parseInt x = parseInt_string (ToString x)"

subsection \<open>Buffers\<close>

text \<open>
  \<^verbatim>\<open>buf.writeUInt16BE(value, offset)\<close> throws when the value is above 65535 or below 0
  (both comparisons are false for \<^verbatim>\<open>NaN\<close>, which therefore passes), throws when the two
  bytes do not fit, and otherwise stores \<^verbatim>\<open>value >>> 8\<close> and \<^verbatim>\<open>value\<close> as bytes;
  both are 0 for \<^verbatim>\<open>NaN\<close>. \<^verbatim>\<open>buf.readUInt16BE(offset)\<close> throws when the two bytes are
  not there. The bounds error is \<^verbatim>\<open>ERR_BUFFER_OUT_OF_BOUNDS\<close> for a buffer shorter than
  two bytes and \<^verbatim>\<open>ERR_OUT_OF_RANGE\<close> for an offset too far in a longer one.
\<close>

definition Buffer_alloc :: "nat \<Rightarrow> Buffer" where
  "Buffer_alloc n = replicate n 0"

definition writeUInt16BE :: "Buffer \<Rightarrow> js_number \<Rightarrow> nat \<Rightarrow> js_error + Buffer" where
  "writeUInt16BE buf v offset =
     (if (case v of NaN \<Rightarrow> False | Number k \<Rightarrow> k > 65535 \<or> k < 0) then Inl ERR_OUT_OF_RANGE
      else if length buf < offset + 2
        then Inl (if length buf < 2 then ERR_BUFFER_OUT_OF_BOUNDS else ERR_OUT_OF_RANGE)
      else let k = (case v of NaN \<Rightarrow> 0 | Number k \<Rightarrow> k)
           in Inr (buf[offset := word_of_int (k div 256), offset + 1 := word_of_int k]))"

definition readUInt16BE :: "Buffer \<Rightarrow> nat \<Rightarrow> js_error + int" where
  "readUInt16BE buf offset =
     (if length buf < offset + 2
        then Inl (if length buf < 2 then ERR_BUFFER_OUT_OF_BOUNDS else ERR_OUT_OF_RANGE)
      else Inr (uint (buf ! offset) * 2 ^ 8 + uint (buf ! (offset + 1))))"

text \<open>\<^verbatim>\<open>Buffer.from(str)\<close> is the UTF-8 encoding of the string.\<close>

definition utf8 :: "char \<Rightarrow> Buffer" where
  "utf8 c =
     (let n = (of_char c :: nat) in
      if n < 128 then [of_nat n] else [of_nat (192 + n div 64), of_nat (128 + n mod 64)])"

definition Buffer_from :: "string \<Rightarrow> Buffer" where
  "Buffer_from str = concat (map utf8 str)"

subsection \<open>The option codec (registerOptions)\<close>

definition COAP_MULTICAST_ADDRESS :: string where
  "COAP_MULTICAST_ADDRESS = ''224.0.1.187''"

definition GLOBAL_DEVID :: string where
  "GLOBAL_DEVID = ''3332''"

definition STATUS_VALIDITY :: string where
  "STATUS_VALIDITY = ''3412''"

definition STATUS_SERIAL :: string where
  "STATUS_SERIAL = ''3420''"

text \<open>
  The function registered for \<^verbatim>\<open>GLOBAL_DEVID\<close> to make the bytes
  (\<^verbatim>\<open>Buffer.from(str)\<close>, which throws for a Number), the two functions registered for
  \<^verbatim>\<open>STATUS_VALIDITY\<close> and the two registered for \<^verbatim>\<open>STATUS_SERIAL\<close>; the source
  writes the same pair of closures twice.
\<close>

definition GLOBAL_DEVID_toBinary :: "js_value \<Rightarrow> js_error + Buffer" where
  "GLOBAL_DEVID_toBinary str =
     (case str of JStr s \<Rightarrow> Inr (Buffer_from s) | JNum n \<Rightarrow> Inl ERR_INVALID_ARG_TYPE)"

definition STATUS_VALIDITY_toBinary :: "js_value \<Rightarrow> js_error + Buffer" where
  "STATUS_VALIDITY_toBinary str = (let buf = Buffer_alloc 2 in writeUInt16BE buf (parseInt str) 0)"

definition STATUS_VALIDITY_toString :: "Buffer \<Rightarrow> js_error + int" where
  "STATUS_VALIDITY_toString buf = readUInt16BE buf 0"

definition STATUS_SERIAL_toBinary :: "js_value \<Rightarrow> js_error + Buffer" where
  "STATUS_SERIAL_toBinary str = (let buf = Buffer_alloc 2 in writeUInt16BE buf (parseInt str) 0)"

definition STATUS_SERIAL_toString :: "Buffer \<Rightarrow> js_error + int" where
  "STATUS_SERIAL_toString buf = readUInt16BE buf 0"

text \<open>
  The table that \<^verbatim>\<open>registerOptions\<close> leaves in the transport: the function that makes
  the bytes of an option, by the name of the option.
\<close>

definition registerOptions :: "string \<Rightarrow> (js_value \<Rightarrow> js_error + Buffer) option" where
  "registerOptions name =
     (if name = GLOBAL_DEVID then Some GLOBAL_DEVID_toBinary
      else if name = STATUS_VALIDITY then Some STATUS_VALIDITY_toBinary
      else if name = STATUS_SERIAL then Some STATUS_SERIAL_toBinary
      else None)"

subsection \<open>The device and its identifier\<close>

text \<open>
  The device is a collaborator: the server reads \<^verbatim>\<open>device.type\<close>, \<^verbatim>\<open>device.id\<close> and
  \<^verbatim>\<open>device.getCoapStatusPayload()\<close>, and subscribes to its \<^verbatim>\<open>change\<close> event.
  \<open>change_listeners\<close> counts the subscriptions of this server's
  \<^verbatim>\<open>_deviceChangeHandler\<close>: \<^verbatim>\<open>on\<close> adds one, \<^verbatim>\<open>removeListener\<close> of eventemitter3
  removes every listener with that function and context.
\<close>

record 'p device =
  dev_type :: string
  dev_id :: string
  coapStatusPayload :: 'p
  change_listeners :: nat

definition getDeviceIdentifier :: "'p device \<Rightarrow> string" where
  "getDeviceIdentifier device = concat [dev_type device, ''#'', dev_id device, ''#1'']"

subsection \<open>Messages of the transport\<close>

text \<open>
  The transport is a collaborator as well. \<^verbatim>\<open>setOption(name, value)\<close> of a message keeps
  an array of Buffers as it is; any other value it turns into bytes with the function
  registered for the name, and it throws what that function throws (for a name with no
  function it throws itself). The values replace those of an option of the same name.
  \<^verbatim>\<open>coap.request\<close> calls \<^verbatim>\<open>setOption\<close> for every entry of its \<^verbatim>\<open>options\<close>, in the
  order of the keys, so it throws when one of them throws. A message therefore holds bytes.

  \<^verbatim>\<open>req.url\<close> of a request is its path, followed by \<^verbatim>\<open>?\<close> and the query when the
  request has one; \<open>url_path\<close> is the path in it.
\<close>

datatype option_value = Buffers "Buffer list" | Str string | Num int

type_synonym options = "(string \<times> Buffer list) list"

record request =
  req_method :: string
  req_url :: string

record response =
  res_options :: options
  res_ended :: "string option"

record message =
  msg_host :: string
  msg_pathname :: string
  msg_options :: options
  msg_multicast :: bool
  msg_multicastTimeout :: nat
  msg_statusCode :: string

datatype packet = Announcement message string | Response response

definition url_path :: "string \<Rightarrow> string" where
  "url_path url = takeWhile (\<lambda>c. c \<noteq> CHR ''?'') url"

definition convert :: "string \<Rightarrow> js_value \<Rightarrow> js_error + Buffer list" where
  "convert name x =
     (case registerOptions name of
        None \<Rightarrow> Inl (Error (''Unknown string to Buffer converter for option: '' @ name))
      | Some f \<Rightarrow> (case f x of Inl e \<Rightarrow> Inl e | Inr buf \<Rightarrow> Inr [buf]))"

fun toBinary :: "string \<Rightarrow> option_value \<Rightarrow> js_error + Buffer list" where
  "toBinary name (Buffers bufs) = Inr bufs"
| "toBinary name (Str s) = convert name (JStr s)"
| "toBinary name (Num n) = convert name (JNum n)"

definition put_option :: "options \<Rightarrow> string \<Rightarrow> Buffer list \<Rightarrow> options" where
  "put_option opts name bufs = filter (\<lambda>(k, _). k \<noteq> name) opts @ [(name, bufs)]"

definition setOption :: "response \<Rightarrow> string \<Rightarrow> option_value \<Rightarrow> js_error + response" where
  "setOption res name v =
     (case toBinary name v of
        Inl e \<Rightarrow> Inl e
      | Inr bufs \<Rightarrow> Inr (res\<lparr>res_options := put_option (res_options res) name bufs\<rparr>))"

definition res_end :: "response \<Rightarrow> string \<Rightarrow> response" where
  "res_end res payload = res\<lparr>res_ended := Some payload\<rparr>"

fun setOptions :: "options \<Rightarrow> (string \<times> option_value) list \<Rightarrow> js_error + options" where
  "setOptions opts [] = Inr opts"
| "setOptions opts ((name, v) # rest) =
     (case toBinary name v of
        Inl e \<Rightarrow> Inl e
      | Inr bufs \<Rightarrow> setOptions (put_option opts name bufs) rest)"

definition coap_request ::
  "string \<Rightarrow> string \<Rightarrow> (string \<times> option_value) list \<Rightarrow> bool \<Rightarrow> nat \<Rightarrow> js_error + message" where
  "coap_request host pathname opts multicast multicastTimeout =
     (case setOptions [] opts of
        Inl e \<Rightarrow> Inl e
      | Inr os \<Rightarrow>
          Inr \<lparr>msg_host = host, msg_pathname = pathname, msg_options = os,
               msg_multicast = multicast, msg_multicastTimeout = multicastTimeout,
               msg_statusCode = []\<rparr>)"

definition getOption :: "options \<Rightarrow> string \<Rightarrow> Buffer list option" where
  "getOption opts name = map_of opts name"

fun packet_options :: "packet \<Rightarrow> options" where
  "packet_options (Announcement req payload) = msg_options req"
| "packet_options (Response res) = res_options res"

text \<open>\<^verbatim>\<open>uri.split('/')\<close>: the pieces between the separators, empty pieces included.\<close>

fun String_split :: "char \<Rightarrow> string \<Rightarrow> string \<Rightarrow> string list" where
  "String_split sep piece [] = [rev piece]"
| "String_split sep piece (c # cs) =
     (if c = sep then rev piece # String_split sep [] cs else String_split sep (c # piece) cs)"

definition setUriPath :: "response \<Rightarrow> string \<Rightarrow> js_error + response" where
  "setUriPath res uri =
     (let parts = String_split CHR ''/'' [] uri;
          buffers = foldl (\<lambda>buffers p. if p \<noteq> [] then buffers @ [Buffer_from p] else buffers) [] parts
      in if length buffers > 0 then setOption res ''Uri-Path'' (Buffers buffers) else Inr res)"

subsection \<open>The server object and the runtime around it\<close>

text \<open>
  The first five fields are the fields of the \<^verbatim>\<open>CoapServer\<close> object. The others are the
  runtime the object lives in: the listeners that \<^verbatim>\<open>coap.createServer\<close> has made
  (\<open>server\<close> and \<open>multicastServer\<close> refer to them by position), the timers that are
  pending with the time they are due at, the next timer handle, the clock in
  milliseconds, the packets handed to the network with the time of sending, the lines
  written by \<^verbatim>\<open>console.log\<close>, the errors written by \<^verbatim>\<open>console.error\<close>, and the
  exceptions that left a timer callback. Every timer of this program has the same
  callback, \<^verbatim>\<open>_broadcastStatus\<close>, so a pending timer is its handle and its due time.
  \<open>serial\<close> is the Number \<^verbatim>\<open>_serial\<close>.
\<close>

record endpoint =
  ep_multicastAddress :: "string option"
  ep_request_listener :: bool
  ep_closed :: bool

record 'p state =
  device :: "'p device"
  server :: "nat option"
  multicastServer :: "nat option"
  serial :: int
  statusBroadcastTimeout :: "nat option"
  endpoints :: "endpoint list"
  timers :: "(nat \<times> nat) list"
  next_timer :: nat
  now :: nat
  network :: "(nat \<times> packet) list"
  console :: "string list"
  console_error :: "js_error list"
  uncaught :: "js_error list"

definition CoapServer :: "'p device \<Rightarrow> 'p state" where
  "CoapServer dev =
     \<lparr>device = dev, server = None, multicastServer = None, serial = 1,
      statusBroadcastTimeout = None, endpoints = [], timers = [], next_timer = 0, now = 0,
      network = [], console = [], console_error = [], uncaught = []\<rparr>"

definition setTimeout :: "nat \<Rightarrow> 'p state \<Rightarrow> nat \<times> 'p state" where
  "setTimeout delay s =
     (next_timer s,
      s\<lparr>timers := timers s @ [(next_timer s, now s + delay)], next_timer := Suc (next_timer s)\<rparr>)"

definition clearTimeout :: "nat \<Rightarrow> 'p state \<Rightarrow> 'p state" where
  "clearTimeout h s = s\<lparr>timers := filter (\<lambda>(h', _). h' \<noteq> h) (timers s)\<rparr>"

definition createServer :: "string option \<Rightarrow> 'p state \<Rightarrow> nat \<times> 'p state" where
  "createServer mc s =
     (length (endpoints s),
      s\<lparr>endpoints := endpoints s @
         [\<lparr>ep_multicastAddress = mc, ep_request_listener = False, ep_closed = False\<rparr>]\<rparr>)"

definition on_request :: "nat \<Rightarrow> 'p state \<Rightarrow> 'p state" where
  "on_request h s =
     (if h < length (endpoints s)
      then s\<lparr>endpoints := (endpoints s)[h := (endpoints s ! h)\<lparr>ep_request_listener := True\<rparr>]\<rparr>
      else s)"

definition removeListener_request :: "nat \<Rightarrow> 'p state \<Rightarrow> 'p state" where
  "removeListener_request h s =
     (if h < length (endpoints s)
      then s\<lparr>endpoints := (endpoints s)[h := (endpoints s ! h)\<lparr>ep_request_listener := False\<rparr>]\<rparr>
      else s)"

definition close :: "nat \<Rightarrow> 'p state \<Rightarrow> 'p state" where
  "close h s =
     (if h < length (endpoints s)
      then s\<lparr>endpoints := (endpoints s)[h := (endpoints s ! h)\<lparr>ep_closed := True\<rparr>]\<rparr>
      else s)"

subsection \<open>The methods of CoapServer\<close>

text \<open>
  \<^verbatim>\<open>JSON.stringify\<close> is the parameter \<open>stringify\<close>. The device's payload is
  serializable, so it is a total function. A method that can throw returns the state it
  leaves behind together with the exception, if there is one.

  In \<^verbatim>\<open>_broadcastStatus\<close> the timer is set and \<^verbatim>\<open>this._serial++\<close> is evaluated before
  \<^verbatim>\<open>coap.request\<close> is called; when that call throws, \<^verbatim>\<open>req.end\<close> is not reached.
\<close>

definition broadcastStatus :: "('p \<Rightarrow> string) \<Rightarrow> 'p state \<Rightarrow> 'p state \<times> js_error option" where
  "broadcastStatus stringify s =
     (let s1 = (case statusBroadcastTimeout s of None \<Rightarrow> s | Some h \<Rightarrow> clearTimeout h s);
          (h, s2) = setTimeout 30000 s1;
          s3 = s2\<lparr>statusBroadcastTimeout := Some h\<rparr>;
          options =
            [(GLOBAL_DEVID, Str (getDeviceIdentifier (device s3))),
             (STATUS_VALIDITY, Num 38400),
             (STATUS_SERIAL, Num (serial s3))];
          s4 = s3\<lparr>serial := Number_of_int (serial s3 + 1)\<rparr>
      in case coap_request COAP_MULTICAST_ADDRESS ''/cit/s'' options True 100 of
           Inl e \<Rightarrow> (s4, Some e)
         | Inr req \<Rightarrow>
             (s4\<lparr>network := network s4 @
                  [(now s4, Announcement (req\<lparr>msg_statusCode := ''0.30''\<rparr>)
                     (stringify (coapStatusPayload (device s4))))]\<rparr>,
              None))"

definition deviceChangeHandler :: "('p \<Rightarrow> string) \<Rightarrow> 'p state \<Rightarrow> 'p state \<times> js_error option" where
  "deviceChangeHandler stringify s = broadcastStatus stringify s"

text \<open>
  In \<^verbatim>\<open>_handleStatusRequest\<close> every \<^verbatim>\<open>setOption\<close> can throw; the response object keeps
  what was set before. \<^verbatim>\<open>this._serial++\<close> is evaluated before the last \<^verbatim>\<open>setOption\<close>
  is called.
\<close>

definition handleStatusRequest ::
  "('p \<Rightarrow> string) \<Rightarrow> request \<Rightarrow> response \<Rightarrow> 'p state \<Rightarrow> 'p state \<times> response \<times> js_error option"
  where
  "handleStatusRequest stringify req res s =
     (let s1 = s\<lparr>console := console s @ [''GET /cit/s'']\<rparr>
      in case setUriPath res ''/cit/s'' of
           Inl e \<Rightarrow> (s1, res, Some e)
         | Inr res1 \<Rightarrow>
        (case setOption res1 GLOBAL_DEVID (Str (getDeviceIdentifier (device s1))) of
           Inl e \<Rightarrow> (s1, res1, Some e)
         | Inr res2 \<Rightarrow>
        (case setOption res2 STATUS_VALIDITY (Num 38400) of
           Inl e \<Rightarrow> (s1, res2, Some e)
         | Inr res3 \<Rightarrow>
        (let s2 = s1\<lparr>serial := Number_of_int (serial s1 + 1)\<rparr>
         in case setOption res3 STATUS_SERIAL (Num (serial s1)) of
              Inl e \<Rightarrow> (s2, res3, Some e)
            | Inr res4 \<Rightarrow>
                (let res5 = res_end res4 (stringify (coapStatusPayload (device s2)))
                 in (s2\<lparr>network := network s2 @ [(now s2, Response res5)]\<rparr>, res5, None))))))"

text \<open>
  \<^verbatim>\<open>_requestHandler\<close>: the guarded call inside \<^verbatim>\<open>try\<close>; the \<^verbatim>\<open>catch\<close> writes the
  exception with \<^verbatim>\<open>console.error\<close> and throws it again.
\<close>

definition requestHandler ::
  "('p \<Rightarrow> string) \<Rightarrow> request \<Rightarrow> response \<Rightarrow> 'p state \<Rightarrow> 'p state \<times> response \<times> js_error option"
  where
  "requestHandler stringify req res s =
     (if req_method req = ''GET'' \<and> req_url req = ''/cit/s''
      then (case handleStatusRequest stringify req res s of
              (s1, res1, None) \<Rightarrow> (s1, res1, None)
            | (s1, res1, Some e) \<Rightarrow> (s1\<lparr>console_error := console_error s1 @ [e]\<rparr>, res1, Some e))
      else (s, res, None))"

definition stop :: "'p state \<Rightarrow> 'p state" where
  "stop s =
     (let s0 = s\<lparr>device := (device s)\<lparr>change_listeners := 0\<rparr>\<rparr>;
          s1 = (case server s0 of None \<Rightarrow> s0
                | Some h \<Rightarrow> (removeListener_request h (close h s0))\<lparr>server := None\<rparr>);
          s2 = (case multicastServer s1 of None \<Rightarrow> s1
                | Some h \<Rightarrow> (removeListener_request h (close h s1))\<lparr>multicastServer := None\<rparr>)
      in case statusBroadcastTimeout s2 of None \<Rightarrow> s2
         | Some t \<Rightarrow> (clearTimeout t s2)\<lparr>statusBroadcastTimeout := None\<rparr>)"

text \<open>
  \<^verbatim>\<open>_startServer\<close> and \<^verbatim>\<open>_startMulticastServer\<close> return a promise. The flag returned
  here says whether a listener was made, so that the promise waits for the callback of
  \<^verbatim>\<open>listen\<close>, or whether the promise is resolved at once. \<open>listen_result\<close> is what
  that callback receives; a promise that is settled is \<open>None\<close> when fulfilled and
  \<open>Some error\<close> when rejected.
\<close>

datatype listen_result = Listening | ListenError js_error

definition startServer :: "'p state \<Rightarrow> 'p state \<times> bool" where
  "startServer s =
     (if server s \<noteq> None then (s, False)
      else let (h, s1) = createServer None s;
               s2 = on_request h s1
           in (s2\<lparr>server := Some h\<rparr>, True))"

definition startMulticastServer :: "'p state \<Rightarrow> 'p state \<times> bool" where
  "startMulticastServer s =
     (if multicastServer s \<noteq> None then (s, False)
      else let (h, s1) = createServer (Some COAP_MULTICAST_ADDRESS) s;
               s2 = on_request h s1
           in (s2\<lparr>multicastServer := Some h\<rparr>, True))"

definition listen_promise :: "bool \<Rightarrow> listen_result \<Rightarrow> js_error option" where
  "listen_promise created cb =
     (if created then (case cb of Listening \<Rightarrow> None | ListenError error \<Rightarrow> Some error) else None)"

text \<open>
  \<^verbatim>\<open>Promise.all\<close> is fulfilled when every promise is, and rejected with the error of the
  promise that is rejected first; when both listeners fail the unicast one is taken to be
  the first.
\<close>

fun Promise_all :: "js_error option list \<Rightarrow> js_error option" where
  "Promise_all [] = None"
| "Promise_all (None # ps) = Promise_all ps"
| "Promise_all (Some error # ps) = Some error"

text \<open>
  \<^verbatim>\<open>start()\<close> in two parts: the part that runs at the call (\<open>start_sync\<close>), and the
  \<^verbatim>\<open>then\<close> or \<^verbatim>\<open>catch\<close> that runs once \<^verbatim>\<open>Promise.all\<close> is settled
  (\<open>start_settle\<close>). The \<^verbatim>\<open>catch\<close> also takes what the \<^verbatim>\<open>then\<close> throws. The second
  component of the result is how the promise returned by \<^verbatim>\<open>start()\<close> is settled.
\<close>

definition start_sync :: "'p state \<Rightarrow> 'p state \<times> bool \<times> bool" where
  "start_sync s =
     (let s0 = s\<lparr>device := (device s)\<lparr>change_listeners := Suc (change_listeners (device s))\<rparr>\<rparr>;
          (s1, c1) = startServer s0;
          (s2, c2) = startMulticastServer s1
      in (s2, c1, c2))"

definition start_settle ::
  "('p \<Rightarrow> string) \<Rightarrow> js_error option \<Rightarrow> 'p state \<Rightarrow> 'p state \<times> js_error option" where
  "start_settle stringify settled s =
     (case settled of
        None \<Rightarrow>
          (case broadcastStatus stringify s of
             (s1, None) \<Rightarrow> (s1, None)
           | (s1, Some error) \<Rightarrow> (stop s1, Some error))
      | Some error \<Rightarrow> (stop s, Some error))"

definition start ::
  "('p \<Rightarrow> string) \<Rightarrow> listen_result \<Rightarrow> listen_result \<Rightarrow> 'p state \<Rightarrow> 'p state \<times> js_error option"
  where
  "start stringify cb1 cb2 s =
     (let (s2, c1, c2) = start_sync s
      in start_settle stringify (Promise_all [listen_promise c1 cb1, listen_promise c2 cb2]) s2)"

subsection \<open>Events of the event loop\<close>

text \<open>
  The device emitting \<^verbatim>\<open>change\<close> (with its new payload) calls the handler once for
  each subscription, one after the other; an exception from a handler leaves
  \<^verbatim>\<open>emit\<close> at once.
\<close>

fun call_listeners ::
  "nat \<Rightarrow> ('s \<Rightarrow> 's \<times> js_error option) \<Rightarrow> 's \<Rightarrow> 's \<times> js_error option" where
  "call_listeners 0 handler s = (s, None)"
| "call_listeners (Suc n) handler s =
     (case handler s of
        (s1, None) \<Rightarrow> call_listeners n handler s1
      | (s1, Some e) \<Rightarrow> (s1, Some e))"

definition emit_change :: "('p \<Rightarrow> string) \<Rightarrow> 'p \<Rightarrow> 'p state \<Rightarrow> 'p state \<times> js_error option" where
  "emit_change stringify p s =
     call_listeners (change_listeners (device s)) (deviceChangeHandler stringify)
       (s\<lparr>device := (device s)\<lparr>coapStatusPayload := p\<rparr>\<rparr>)"

text \<open>
  A pending timer that is due leaves the pending timers and its callback runs, not before
  its due time. An exception that leaves the callback is uncaught: it is recorded, and
  the event loop is taken to go on (what the process does with it is not the server's).
  \<open>advance t\<close> lets the clock run to \<open>t\<close>, running the timers that fall due on the
  way, earliest first.
\<close>

fun earliest :: "(nat \<times> nat) list \<Rightarrow> (nat \<times> nat) option" where
  "earliest [] = None"
| "earliest (x # xs) =
     (case earliest xs of None \<Rightarrow> Some x | Some y \<Rightarrow> if snd x \<le> snd y then Some x else Some y)"

definition expire :: "('p \<Rightarrow> string) \<Rightarrow> nat \<times> nat \<Rightarrow> 'p state \<Rightarrow> 'p state" where
  "expire stringify timer s =
     (case broadcastStatus stringify
             (s\<lparr>timers := filter (\<lambda>(h', _). h' \<noteq> fst timer) (timers s),
                now := max (now s) (snd timer)\<rparr>) of
        (s1, None) \<Rightarrow> s1
      | (s1, Some e) \<Rightarrow> s1\<lparr>uncaught := uncaught s1 @ [e]\<rparr>)"

text \<open>
  \<open>slack\<close> is the measure that makes \<open>advance\<close> terminate: a timer that fires is
  replaced by one that is due 30000 ms later.
\<close>

definition slack :: "nat \<Rightarrow> (nat \<times> nat) list \<Rightarrow> nat" where
  "slack t ts = sum_list (map (\<lambda>(h, d). Suc t - d) ts)"

function advance :: "('p \<Rightarrow> string) \<Rightarrow> nat \<Rightarrow> 'p state \<Rightarrow> 'p state" where
  "advance stringify t s =
     (case earliest (timers s) of
        None \<Rightarrow> s\<lparr>now := max (now s) t\<rparr>
      | Some timer \<Rightarrow>
          if snd timer \<le> t then advance stringify t (expire stringify timer s)
          else s\<lparr>now := max (now s) t\<rparr>)"
  by pat_completeness auto

text \<open>
  What can happen to a server, one event at a time: \<^verbatim>\<open>start()\<close> is called, the promise
  of \<^verbatim>\<open>Promise.all\<close> is settled, \<^verbatim>\<open>stop()\<close> is called, the device changes, the clock
  runs to a given time, a request comes in. No order is imposed: \<^verbatim>\<open>stop()\<close> may come
  between the call of \<^verbatim>\<open>start()\<close> and the settling of its promise. What a call throws
  goes to its caller; the state it leaves is the state of the server.
\<close>

datatype 'p event =
  Call_start
  | Listeners_settled "js_error option"
  | Call_stop
  | Device_change 'p
  | Clock nat
  | Incoming request response

fun step :: "('p \<Rightarrow> string) \<Rightarrow> 'p event \<Rightarrow> 'p state \<Rightarrow> 'p state" where
  "step stringify Call_start s = fst (start_sync s)"
| "step stringify (Listeners_settled settled) s = fst (start_settle stringify settled s)"
| "step stringify Call_stop s = stop s"
| "step stringify (Device_change p) s = fst (emit_change stringify p s)"
| "step stringify (Clock t) s = advance stringify t s"
| "step stringify (Incoming req res) s = fst (requestHandler stringify req res s)"

definition run :: "('p \<Rightarrow> string) \<Rightarrow> 'p event list \<Rightarrow> 'p state \<Rightarrow> 'p state" where
  "run stringify evs s = foldl (\<lambda>s ev. step stringify ev s) s evs"

subsection \<open>Invariants and observations\<close>

text \<open>
  \<open>timer_inv\<close>: at most one timer is pending, and it is the one the object holds.
  \<open>endpoint_inv\<close>: a listener that is not closed is one the object holds.
  \<open>uint16BE k\<close>: the two bytes of \<open>k\<close>, the high one first.
  \<open>serials\<close>: the bytes of the serial option of every packet sent, oldest first.
  \<open>serial_inv\<close>: the counter is from 1 to \<open>2^53\<close>, and the packets sent carry 1, 2, 3
  and so on, up to the counter minus one and no further than 65535.
  \<open>torn_down\<close>: nothing is left running.
\<close>

definition timer_inv :: "'p state \<Rightarrow> bool" where
  "timer_inv s \<longleftrightarrow>
     length (timers s) \<le> 1 \<and> (\<forall>x \<in> set (timers s). statusBroadcastTimeout s = Some (fst x))"

definition endpoint_inv :: "'p state \<Rightarrow> bool" where
  "endpoint_inv s \<longleftrightarrow>
     (\<forall>i < length (endpoints s).
        ep_closed (endpoints s ! i) \<or> server s = Some i \<or> multicastServer s = Some i)"

definition uint16BE :: "int \<Rightarrow> Buffer" where
  "uint16BE k = [word_of_int (k div 256), word_of_int k]"

definition serials :: "'p state \<Rightarrow> Buffer list option list" where
  "serials s = map (\<lambda>(t, p). getOption (packet_options p) STATUS_SERIAL) (network s)"

definition serial_inv :: "'p state \<Rightarrow> bool" where
  "serial_inv s \<longleftrightarrow>
     1 \<le> serial s \<and> serial s \<le> 2 ^ 53 \<and>
     serials s = map (\<lambda>k. Some [uint16BE (int k)]) [1..<min (nat (serial s)) 65536]"

definition torn_down :: "'p state \<Rightarrow> bool" where
  "torn_down s \<longleftrightarrow>
     server s = None \<and> multicastServer s = None \<and> statusBroadcastTimeout s = None \<and>
     timers s = [] \<and> list_all ep_closed (endpoints s) \<and> change_listeners (device s) = 0"

section \<open>Facts about the codec\<close>

lemma digitValue_digit_char: "d < 10 \<Longrightarrow> digitValue (digit_char d) = Some d"
  by (simp add: digitValue_def digit_char_def Let_def)

lemma isRadixDigit_digit_char: "d < 10 \<Longrightarrow> isRadixDigit 10 (digit_char d)"
  by (simp add: isRadixDigit_def digitValue_digit_char)

lemma decimal_digits: "c \<in> set (decimal n) \<Longrightarrow> \<exists>d<10. c = digit_char d"
proof (induction n rule: decimal.induct)
  case (1 n)
  show ?case
  proof (cases "n < 10")
    case True
    with "1.prems" show ?thesis by (auto simp: decimal.simps [of n])
  next
    case False
    with "1.prems" have "c \<in> set (decimal (n div 10)) \<or> c = digit_char (n mod 10)"
      by (auto simp: decimal.simps [of n])
    then show ?thesis
    proof
      assume "c \<in> set (decimal (n div 10))"
      with False "1.IH" show ?thesis by blast
    next
      assume "c = digit_char (n mod 10)"
      moreover have "n mod 10 < 10" by simp
      ultimately show ?thesis by blast
    qed
  qed
qed

lemma decimal_nonempty: "decimal n \<noteq> []"
  by (subst decimal.simps) simp

lemma takeWhile_decimal: "takeWhile (isRadixDigit 10) (decimal n) = decimal n"
  using decimal_digits isRadixDigit_digit_char by (fastforce simp: takeWhile_eq_all_conv)

lemma mathInt_snoc:
  "mathInt R (Z @ [c]) = mathInt R Z * R + (case digitValue c of None \<Rightarrow> 0 | Some d \<Rightarrow> d)"
  by (simp add: mathInt_def)

lemma mathInt_decimal: "mathInt 10 (decimal n) = n"
proof (induction n rule: decimal.induct)
  case (1 n)
  show ?case
  proof (cases "n < 10")
    case True
    then show ?thesis
      by (simp add: decimal.simps [of n] mathInt_def digitValue_digit_char)
  next
    case False
    with "1.IH" have "mathInt 10 (decimal (n div 10)) = n div 10" by simp
    with False show ?thesis
      by (simp add: decimal.simps [of n] mathInt_snoc digitValue_digit_char)
  qed
qed

lemma of_char_digit_char: "d < 10 \<Longrightarrow> (of_char (digit_char d) :: nat) = 48 + d"
  by (simp add: digit_char_def)

lemma digit_char_plain:
  assumes "d < 10"
  shows "\<not> isWhiteSpace (digit_char d)" "digit_char d \<noteq> CHR ''-''" "digit_char d \<noteq> CHR ''+''"
    "digit_char d \<noteq> CHR ''x''" "digit_char d \<noteq> CHR ''X''"
proof -
  have v: "(of_char (digit_char d) :: nat) = 48 + d"
    using assms by (rule of_char_digit_char)
  show "\<not> isWhiteSpace (digit_char d)"
    using assms by (simp add: isWhiteSpace_def v)
  have ne: "digit_char d \<noteq> c" if "(of_char c :: nat) \<noteq> 48 + d" for c
    using that v by auto
  show "digit_char d \<noteq> CHR ''-''" by (rule ne) simp
  show "digit_char d \<noteq> CHR ''+''" by (rule ne) simp
  show "digit_char d \<noteq> CHR ''x''" using assms by (intro ne) simp
  show "digit_char d \<noteq> CHR ''X''" using assms by (intro ne) simp
qed

lemma hd_decimal: "\<exists>d<10. hd (decimal n) = digit_char d"
  using decimal_digits [of "hd (decimal n)" n] decimal_nonempty [of n] by simp

lemma decimal_no_prefix: "take 2 (decimal n) \<noteq> [CHR ''0'', c]" if "c = CHR ''x'' \<or> c = CHR ''X''"
proof
  assume a: "take 2 (decimal n) = [CHR ''0'', c]"
  have "c \<in> set [CHR ''0'', c]" by simp
  then have "c \<in> set (take 2 (decimal n))" by (simp only: a)
  then have "c \<in> set (decimal n)" by (rule in_set_takeD)
  then obtain d where d: "d < 10" and c: "c = digit_char d" using decimal_digits by blast
  from that show False
  proof
    assume "c = CHR ''x''"
    with c digit_char_plain(4) [OF d] show False by simp
  next
    assume "c = CHR ''X''"
    with c digit_char_plain(5) [OF d] show False by simp
  qed
qed

lemma parseInt_string_decimal: "parseInt_string (decimal n) = Number (int n)"
proof -
  obtain d where d: "d < 10" "hd (decimal n) = digit_char d" using hd_decimal by blast
  have ne: "decimal n \<noteq> []" by (rule decimal_nonempty)
  have ws: "dropWhile isWhiteSpace (decimal n) = decimal n"
    using ne d digit_char_plain(1) by (cases "decimal n") auto
  have sg: "hd (decimal n) \<noteq> CHR ''-''" "hd (decimal n) \<noteq> CHR ''+''"
    using d digit_char_plain by auto
  have px: "take 2 (decimal n) \<noteq> ''0x''" "take 2 (decimal n) \<noteq> ''0X''"
    using decimal_no_prefix by auto
  show ?thesis
    by (simp add: parseInt_string_def ws sg px ne takeWhile_decimal mathInt_decimal)
qed

lemma parseInt_string_minus_decimal:
  "parseInt_string (CHR ''-'' # decimal n) = Number (- int n)"
proof -
  have ne: "decimal n \<noteq> []" by (rule decimal_nonempty)
  have ws: "dropWhile isWhiteSpace (CHR ''-'' # decimal n) = CHR ''-'' # decimal n"
    by (simp add: isWhiteSpace_def)
  have px: "take 2 (decimal n) \<noteq> ''0x''" "take 2 (decimal n) \<noteq> ''0X''"
    using decimal_no_prefix by auto
  show ?thesis
    unfolding parseInt_string_def ws
    by (simp add: px ne takeWhile_decimal mathInt_decimal)
qed

lemma bitlen_power2: "bitlen (2 ^ k) = Suc k"
proof (induction k)
  case 0
  have "bitlen (Suc 0) = Suc (bitlen 0)" by (subst bitlen.simps) simp
  moreover have "bitlen 0 = 0" by (subst bitlen.simps) simp
  ultimately show ?case by simp
next
  case (Suc k)
  have "bitlen (2 ^ Suc k) = Suc (bitlen (2 ^ Suc k div 2))" by (subst bitlen.simps) simp
  with Suc show ?case by simp
qed

lemma round_double_exact: "y \<le> 2 ^ 53 \<Longrightarrow> round_double y = y"
proof (cases "y < 2 ^ 53")
  case True
  then show ?thesis by (simp add: round_double_def)
next
  case False
  assume "y \<le> 2 ^ 53"
  with False have y: "y = 2 ^ 53" by simp
  have "bitlen (2 ^ 53) = 54" using bitlen_power2 [of 53] by simp
  then show ?thesis unfolding y round_double_def by (simp add: Let_def)
qed

lemma round_double_above: "round_double (2 ^ 53 + 1) = 2 ^ 53"
proof -
  have "bitlen 4503599627370496 = 53" using bitlen_power2 [of 52] by simp
  moreover have "bitlen 9007199254740993 = Suc (bitlen 4503599627370496)"
    by (subst bitlen.simps) simp
  ultimately have "bitlen 9007199254740993 = 54" by simp
  then show ?thesis by (simp add: round_double_def Let_def)
qed

lemma Number_of_int_exact: "\<bar>n\<bar> \<le> 2 ^ 53 \<Longrightarrow> Number_of_int n = n"
proof -
  assume a: "\<bar>n\<bar> \<le> 2 ^ 53"
  have "nat \<bar>n\<bar> \<le> 2 ^ 53" using a by (simp add: nat_le_iff)
  then have "round_double (nat \<bar>n\<bar>) = nat \<bar>n\<bar>" by (rule round_double_exact)
  then show ?thesis by (cases "n < 0") (simp_all add: Number_of_int_def abs_if)
qed

lemma Number_of_int_succ:
  assumes "1 \<le> k" "k \<le> 2 ^ 53"
  shows "Number_of_int (k + 1) = (if k < 2 ^ 53 then k + 1 else k)"
proof (cases "k < 2 ^ 53")
  case True
  with assms have "\<bar>k + 1\<bar> \<le> 2 ^ 53" by simp
  with True show ?thesis by (simp add: Number_of_int_exact)
next
  case False
  with assms have k: "k = 2 ^ 53" by simp
  have "round_double 9007199254740993 = 9007199254740992" using round_double_above by simp
  then show ?thesis unfolding k Number_of_int_def by simp
qed

lemma Number_toString_exact:
  "\<bar>n\<bar> \<le> 2 ^ 53 \<Longrightarrow>
     Number_toString n = (if n < 0 then CHR ''-'' # decimal (nat (- n)) else decimal (nat n))"
proof (cases "n < 0")
  case True
  assume "\<bar>n\<bar> \<le> 2 ^ 53"
  with True have le: "nat (- n) \<le> 2 ^ 53" by simp
  then have r: "round_double (nat (- n)) = nat (- n)" by (rule round_double_exact)
  from True have ab: "\<bar>n\<bar> = - n" by simp
  show ?thesis using True le by (simp add: Number_toString_def ab r Let_def)
next
  case False
  assume "\<bar>n\<bar> \<le> 2 ^ 53"
  with False have le: "nat n \<le> 2 ^ 53" by simp
  then have r: "round_double (nat n) = nat n" by (rule round_double_exact)
  from False have ab: "\<bar>n\<bar> = n" by simp
  show ?thesis using False le by (simp add: Number_toString_def ab r Let_def)
qed

lemma parseInt_JNum: "\<bar>n\<bar> \<le> 2 ^ 53 \<Longrightarrow> parseInt (JNum n) = Number n"
  by (simp add: parseInt_def Number_toString_exact parseInt_string_decimal
      parseInt_string_minus_decimal)

lemma writeUInt16BE_in_range:
  "0 \<le> k \<Longrightarrow> k \<le> 65535 \<Longrightarrow> writeUInt16BE (Buffer_alloc 2) (Number k) 0 = Inr (uint16BE k)"
  by (simp add: writeUInt16BE_def Buffer_alloc_def numeral_2_eq_2 uint16BE_def)

lemma readUInt16BE_bytes: "0 \<le> k \<Longrightarrow> k \<le> 65535 \<Longrightarrow> readUInt16BE (uint16BE k) 0 = Inr k"
proof -
  assume a: "0 \<le> k" "k \<le> 65535"
  have "uint (word_of_int (k div 256) :: byte) = k div 256"
    using a by (simp add: uint_word_of_int take_bit_eq_mod)
  moreover have "uint (word_of_int k :: byte) = k mod 256"
    by (simp add: uint_word_of_int take_bit_eq_mod)
  ultimately show ?thesis by (simp add: readUInt16BE_def uint16BE_def)
qed

lemma STATUS_SERIAL_toBinary_in_range:
  "0 \<le> k \<Longrightarrow> k \<le> 65535 \<Longrightarrow> STATUS_SERIAL_toBinary (JNum k) = Inr (uint16BE k)"
  by (simp add: STATUS_SERIAL_toBinary_def parseInt_JNum writeUInt16BE_in_range)

lemma STATUS_SERIAL_toBinary_above:
  "65535 < k \<Longrightarrow> k \<le> 2 ^ 53 \<Longrightarrow> STATUS_SERIAL_toBinary (JNum k) = Inl ERR_OUT_OF_RANGE"
  by (simp add: STATUS_SERIAL_toBinary_def parseInt_JNum writeUInt16BE_def)

lemma STATUS_VALIDITY_toBinary_38400: "STATUS_VALIDITY_toBinary (JNum 38400) = Inr (uint16BE 38400)"
  by (simp add: STATUS_VALIDITY_toBinary_def parseInt_JNum writeUInt16BE_in_range)

lemma option_names:
  "GLOBAL_DEVID \<noteq> STATUS_VALIDITY" "GLOBAL_DEVID \<noteq> STATUS_SERIAL" "STATUS_VALIDITY \<noteq> STATUS_SERIAL"
  "STATUS_VALIDITY \<noteq> GLOBAL_DEVID" "STATUS_SERIAL \<noteq> GLOBAL_DEVID" "STATUS_SERIAL \<noteq> STATUS_VALIDITY"
  "''Uri-Path'' \<noteq> GLOBAL_DEVID" "''Uri-Path'' \<noteq> STATUS_VALIDITY" "''Uri-Path'' \<noteq> STATUS_SERIAL"
  "GLOBAL_DEVID \<noteq> ''Uri-Path''" "STATUS_VALIDITY \<noteq> ''Uri-Path''" "STATUS_SERIAL \<noteq> ''Uri-Path''"
  by (simp_all add: GLOBAL_DEVID_def STATUS_VALIDITY_def STATUS_SERIAL_def)

lemma convert_GLOBAL_DEVID: "convert GLOBAL_DEVID (JStr x) = Inr [Buffer_from x]"
  by (simp add: convert_def registerOptions_def GLOBAL_DEVID_toBinary_def)

lemma convert_STATUS_VALIDITY: "convert STATUS_VALIDITY (JNum 38400) = Inr [uint16BE 38400]"
  by (simp add: convert_def registerOptions_def option_names STATUS_VALIDITY_toBinary_38400)

lemma convert_STATUS_SERIAL:
  "0 \<le> k \<Longrightarrow> k \<le> 2 ^ 53 \<Longrightarrow>
     convert STATUS_SERIAL (JNum k) = (if k \<le> 65535 then Inr [uint16BE k] else Inl ERR_OUT_OF_RANGE)"
  by (simp add: convert_def registerOptions_def option_names STATUS_SERIAL_toBinary_in_range
      STATUS_SERIAL_toBinary_above)

lemma bitlen_bounds: "2 ^ k \<le> n \<Longrightarrow> n < 2 ^ Suc k \<Longrightarrow> bitlen n = Suc k"
proof (induction k arbitrary: n)
  case 0
  then have "n = 1" by simp
  then show ?case using bitlen_power2 [of 0] by simp
next
  case (Suc k)
  have "2 ^ k \<le> n div 2" using Suc.prems(1) by simp
  moreover have "n div 2 < 2 ^ Suc k" using Suc.prems(2) by simp
  ultimately have "bitlen (n div 2) = Suc k" by (rule Suc.IH)
  moreover have "0 < (2 :: nat) ^ Suc k" by simp
  then have "n \<noteq> 0" using Suc.prems(1) by linarith
  ultimately show ?case by (subst bitlen.simps) simp
qed

lemma digit_chars:
  "digit_char 0 = CHR ''0''" "digit_char (Suc 0) = CHR ''1''" "digit_char 2 = CHR ''2''"
  by code_simp+

lemma round_double_1e21: "round_double 1000000000000000000000 = 1000000000000000000000"
proof -
  have "bitlen 1000000000000000000000 = 70"
    by (rule bitlen_bounds [of 69, simplified]) simp_all
  then show ?thesis by (simp add: round_double_def Let_def)
qed

lemma round_double_2e21: "round_double 2000000000000000000000 = 2000000000000000000000"
proof -
  have "bitlen 2000000000000000000000 = 71"
    by (rule bitlen_bounds [of 70, simplified]) simp_all
  then show ?thesis by (simp add: round_double_def Let_def)
qed

lemma decimal_1e21: "decimal 1000000000000000000000 = ''1000000000000000000000''"
  by (simp add: decimal.simps digit_chars)

lemma shortest_1e21: "shortest 1000000000000000000000 = 1000000000000000000000"
proof -
  have "shortest_at 1000000000000000000000 (Suc 0) = Some 1000000000000000000000"
    by (simp add: shortest_at_def decimal_1e21 round_double_1e21 round_double_2e21 Let_def)
  then show ?thesis by (simp add: shortest_def decimal_1e21 upt_conv_Cons)
qed

lemma Number_toString_1e21: "Number_toString 1000000000000000000000 = ''1e+21''"
  by (simp add: Number_toString_def round_double_1e21 Number_toString_large_def shortest_1e21
      decimal_1e21 strip_zeros_def Let_def decimal.simps digit_chars)

section \<open>Facts about the server\<close>

lemma broadcastStatus_cases:
  "broadcastStatus f s =
     (let s4 = s\<lparr>timers := (case statusBroadcastTimeout s of None \<Rightarrow> timers s
                    | Some h \<Rightarrow> filter (\<lambda>(h', _). h' \<noteq> h) (timers s)) @ [(next_timer s, now s + 30000)],
                next_timer := Suc (next_timer s),
                statusBroadcastTimeout := Some (next_timer s),
                serial := Number_of_int (serial s + 1)\<rparr>
      in case coap_request COAP_MULTICAST_ADDRESS ''/cit/s''
                [(GLOBAL_DEVID, Str (getDeviceIdentifier (device s))),
                 (STATUS_VALIDITY, Num 38400),
                 (STATUS_SERIAL, Num (serial s))] True 100 of
           Inl e \<Rightarrow> (s4, Some e)
         | Inr req \<Rightarrow>
             (s4\<lparr>network := network s @
                  [(now s, Announcement (req\<lparr>msg_statusCode := ''0.30''\<rparr>)
                     (f (coapStatusPayload (device s))))]\<rparr>,
              None))"
proof (cases "statusBroadcastTimeout s")
  case None
  then show ?thesis
    by (simp add: broadcastStatus_def setTimeout_def Let_def split: sum.splits)
next
  case (Some h)
  then show ?thesis
    by (simp add: broadcastStatus_def setTimeout_def clearTimeout_def Let_def split: sum.splits)
qed

lemma timers_broadcastStatus:
  "timers (fst (broadcastStatus f s)) =
     (case statusBroadcastTimeout s of None \<Rightarrow> timers s
      | Some h \<Rightarrow> filter (\<lambda>(h', _). h' \<noteq> h) (timers s)) @ [(next_timer s, now s + 30000)]"
  by (simp add: broadcastStatus_cases Let_def split: sum.splits)

lemma timers_uncaught [simp]: "timers (s\<lparr>uncaught := u\<rparr>) = timers s"
  by simp

lemma slack_filter_le: "slack t (filter P ts) \<le> slack t ts"
  unfolding slack_def by (rule sum_list_filter_le_nat)

lemma slack_remove:
  "(h, d) \<in> set ts \<Longrightarrow> slack t (filter (\<lambda>(h', _). h' \<noteq> h) ts) + (Suc t - d) \<le> slack t ts"
proof (induction ts)
  case Nil
  then show ?case by simp
next
  case (Cons x ts)
  obtain h' d' where x: "x = (h', d')" by (cases x)
  show ?case
  proof (cases "h' = h")
    case True
    have le: "slack t (filter (\<lambda>(h', _). h' \<noteq> h) ts) \<le> slack t ts" by (rule slack_filter_le)
    show ?thesis
    proof (cases "(h, d) \<in> set ts")
      case True
      with Cons.IH have "slack t (filter (\<lambda>(h', _). h' \<noteq> h) ts) + (Suc t - d) \<le> slack t ts" by simp
      with \<open>h' = h\<close> x show ?thesis by (simp add: slack_def)
    next
      case False
      with Cons.prems x have "d' = d" by auto
      with \<open>h' = h\<close> x le show ?thesis by (simp add: slack_def)
    qed
  next
    case False
    with Cons.prems x have "(h, d) \<in> set ts" by auto
    with Cons.IH have "slack t (filter (\<lambda>(h', _). h' \<noteq> h) ts) + (Suc t - d) \<le> slack t ts" by simp
    with False x show ?thesis by (simp add: slack_def)
  qed
qed

lemma earliest_mem: "earliest ts = Some x \<Longrightarrow> x \<in> set ts"
  by (induction ts arbitrary: x) (auto split: option.splits if_splits)

lemma timers_expire:
  "timers (expire f timer s) =
     timers (fst (broadcastStatus f
       (s\<lparr>timers := filter (\<lambda>(h', _). h' \<noteq> fst timer) (timers s), now := max (now s) (snd timer)\<rparr>)))"
  by (simp add: expire_def split: prod.splits option.splits)

lemma slack_expire:
  assumes "earliest (timers s) = Some timer" "snd timer \<le> t"
  shows "slack t (timers (expire f timer s)) < slack t (timers s)"
proof -
  obtain h d where timer: "timer = (h, d)" by (cases timer)
  let ?ts1 = "filter (\<lambda>(h', _). h' \<noteq> h) (timers s)"
  let ?ts2 = "case statusBroadcastTimeout s of None \<Rightarrow> ?ts1
      | Some h \<Rightarrow> filter (\<lambda>(h', _). h' \<noteq> h) ?ts1"
  have mem: "(h, d) \<in> set (timers s)" using assms(1) timer earliest_mem by blast
  have d: "d \<le> t" using assms(2) timer by simp
  have "timers (expire f timer s) = ?ts2 @ [(next_timer s, max (now s) d + 30000)]"
    by (simp add: timers_expire timers_broadcastStatus timer split: option.splits)
  then have "slack t (timers (expire f timer s)) = slack t ?ts2 + (Suc t - (max (now s) d + 30000))"
    by (simp add: slack_def)
  moreover have "slack t ?ts2 \<le> slack t ?ts1"
    by (cases "statusBroadcastTimeout s") (simp_all add: slack_filter_le del: filter_filter)
  moreover have "slack t ?ts1 + (Suc t - d) \<le> slack t (timers s)"
    using mem by (rule slack_remove)
  moreover have "Suc t - (max (now s) d + 30000) < Suc t - d" using d by simp
  ultimately show ?thesis by linarith
qed

termination advance
  by (relation "measure (\<lambda>(f, t, s). slack t (timers s))") (simp_all add: slack_expire)

declare advance.simps [simp del]

lemma broadcastStatus_frame [simp]:
  "device (fst (broadcastStatus f s)) = device s"
  "server (fst (broadcastStatus f s)) = server s"
  "multicastServer (fst (broadcastStatus f s)) = multicastServer s"
  "endpoints (fst (broadcastStatus f s)) = endpoints s"
  "now (fst (broadcastStatus f s)) = now s"
  "console (fst (broadcastStatus f s)) = console s"
  "console_error (fst (broadcastStatus f s)) = console_error s"
  "uncaught (fst (broadcastStatus f s)) = uncaught s"
  "serial (fst (broadcastStatus f s)) = Number_of_int (serial s + 1)"
  "statusBroadcastTimeout (fst (broadcastStatus f s)) = Some (next_timer s)"
  "next_timer (fst (broadcastStatus f s)) = Suc (next_timer s)"
  by (simp_all add: broadcastStatus_cases Let_def split: sum.splits)

lemma setOptions_status:
  assumes "0 \<le> k" "k \<le> 2 ^ 53"
  shows "setOptions [] [(GLOBAL_DEVID, Str x), (STATUS_VALIDITY, Num 38400), (STATUS_SERIAL, Num k)] =
     (if k \<le> 65535
      then Inr [(GLOBAL_DEVID, [Buffer_from x]), (STATUS_VALIDITY, [uint16BE 38400]),
                (STATUS_SERIAL, [uint16BE k])]
      else Inl ERR_OUT_OF_RANGE)"
  using assms
  by (simp add: convert_GLOBAL_DEVID convert_STATUS_VALIDITY convert_STATUS_SERIAL put_option_def
      option_names)

lemma coap_request_status:
  assumes "0 \<le> k" "k \<le> 2 ^ 53"
  shows "coap_request host path
       [(GLOBAL_DEVID, Str x), (STATUS_VALIDITY, Num 38400), (STATUS_SERIAL, Num k)] mc mt =
     (if k \<le> 65535
      then Inr \<lparr>msg_host = host, msg_pathname = path,
                msg_options =
                  [(GLOBAL_DEVID, [Buffer_from x]), (STATUS_VALIDITY, [uint16BE 38400]),
                   (STATUS_SERIAL, [uint16BE k])],
                msg_multicast = mc, msg_multicastTimeout = mt, msg_statusCode = []\<rparr>
      else Inl ERR_OUT_OF_RANGE)"
  unfolding coap_request_def setOptions_status [OF assms] by simp

lemma network_broadcastStatus:
  assumes "0 \<le> serial s" "serial s \<le> 2 ^ 53"
  shows "network (fst (broadcastStatus f s)) =
     (if serial s \<le> 65535
      then network s @
        [(now s, Announcement
           \<lparr>msg_host = COAP_MULTICAST_ADDRESS, msg_pathname = ''/cit/s'',
            msg_options =
              [(GLOBAL_DEVID, [Buffer_from (getDeviceIdentifier (device s))]),
               (STATUS_VALIDITY, [uint16BE 38400]),
               (STATUS_SERIAL, [uint16BE (serial s)])],
            msg_multicast = True, msg_multicastTimeout = 100, msg_statusCode = ''0.30''\<rparr>
           (f (coapStatusPayload (device s))))]
      else network s)"
  unfolding broadcastStatus_cases coap_request_status [OF assms] by (simp add: Let_def)

lemma thrown_broadcastStatus:
  assumes "0 \<le> serial s" "serial s \<le> 2 ^ 53"
  shows "snd (broadcastStatus f s) = (if serial s \<le> 65535 then None else Some ERR_OUT_OF_RANGE)"
  unfolding broadcastStatus_cases coap_request_status [OF assms] by (simp add: Let_def)

lemma timer_inv_single:
  "timer_inv s \<Longrightarrow>
     (case statusBroadcastTimeout s of None \<Rightarrow> timers s
      | Some h \<Rightarrow> filter (\<lambda>(h', _). h' \<noteq> h) (timers s)) = []"
proof -
  assume inv: "timer_inv s"
  show ?thesis
  proof (cases "timers s")
    case Nil
    then show ?thesis by (simp split: option.splits)
  next
    case (Cons x xs)
    with inv have "xs = []" and "statusBroadcastTimeout s = Some (fst x)"
      by (simp_all add: timer_inv_def)
    with Cons show ?thesis by (cases x) simp
  qed
qed

lemma timers_broadcastStatus_inv:
  "timer_inv s \<Longrightarrow> timers (fst (broadcastStatus f s)) = [(next_timer s, now s + 30000)]"
  by (simp add: timers_broadcastStatus timer_inv_single)

lemma timer_inv_broadcastStatus: "timer_inv s \<Longrightarrow> timer_inv (fst (broadcastStatus f s))"
  by (simp add: timer_inv_def [of "fst (broadcastStatus f s)"] timers_broadcastStatus_inv)

lemma getOption_announcement:
  "getOption [(GLOBAL_DEVID, a), (STATUS_VALIDITY, b), (STATUS_SERIAL, c)] STATUS_SERIAL = Some c"
  "getOption [(GLOBAL_DEVID, a), (STATUS_VALIDITY, b), (STATUS_SERIAL, c)] STATUS_VALIDITY = Some b"
  "getOption [(GLOBAL_DEVID, a), (STATUS_VALIDITY, b), (STATUS_SERIAL, c)] GLOBAL_DEVID = Some a"
  by (simp_all add: getOption_def GLOBAL_DEVID_def STATUS_VALIDITY_def STATUS_SERIAL_def)

lemma serials_broadcastStatus:
  assumes "0 \<le> serial s" "serial s \<le> 2 ^ 53"
  shows "serials (fst (broadcastStatus f s)) =
     (if serial s \<le> 65535 then serials s @ [Some [uint16BE (serial s)]] else serials s)"
  by (simp add: serials_def network_broadcastStatus [OF assms] getOption_announcement)

lemma upt_serial: "1 \<le> k \<Longrightarrow> [1..<nat (k + 1)] = [1..<nat k] @ [nat k]"
proof -
  assume "1 \<le> k"
  then have "nat (k + 1) = Suc (nat k)" by simp
  moreover have "1 \<le> nat k" using \<open>1 \<le> k\<close> by simp
  ultimately show ?thesis by simp
qed

lemma serial_inv_send:
  assumes "serial_inv s" "serial s' = Number_of_int (serial s + 1)"
    "serials s' = (if serial s \<le> 65535 then serials s @ [Some [uint16BE (serial s)]] else serials s)"
  shows "serial_inv s'"
proof -
  from assms(1) have one: "1 \<le> serial s" and top: "serial s \<le> 2 ^ 53"
    and eq: "serials s = map (\<lambda>k. Some [uint16BE (int k)]) [1..<min (nat (serial s)) 65536]"
    by (simp_all add: serial_inv_def)
  have succ: "serial s' = (if serial s < 2 ^ 53 then serial s + 1 else serial s)"
    using assms(2) Number_of_int_succ [OF one top] by simp
  have range: "1 \<le> serial s'" "serial s' \<le> 2 ^ 53"
    using one top succ by (simp_all split: if_splits)
  show ?thesis
  proof (cases "serial s \<le> 65535")
    case True
    then have s': "serial s' = serial s + 1" using succ by simp
    have m: "min (nat (serial s)) 65536 = nat (serial s)" "min (nat (serial s')) 65536 = nat (serial s')"
      using True one s' by simp_all
    have "int (nat (serial s)) = serial s" using one by simp
    then have "serials s' = map (\<lambda>k. Some [uint16BE (int k)]) ([1..<nat (serial s)] @ [nat (serial s)])"
      using eq assms(3) True m by simp
    also have "[1..<nat (serial s)] @ [nat (serial s)] = [1..<nat (serial s')]"
      using upt_serial [OF one] s' by simp
    finally have "serials s' = map (\<lambda>k. Some [uint16BE (int k)]) [1..<min (nat (serial s')) 65536]"
      using m by simp
    with range show ?thesis unfolding serial_inv_def by blast
  next
    case False
    then have "65536 \<le> serial s" "65536 \<le> serial s'" using succ by (simp_all split: if_splits)
    then have m: "min (nat (serial s)) 65536 = 65536" "min (nat (serial s')) 65536 = 65536"
      by simp_all
    from False assms(3) eq have "serials s' = map (\<lambda>k. Some [uint16BE (int k)]) [1..<min (nat (serial s')) 65536]"
      by (simp only: m if_False)
    with range show ?thesis unfolding serial_inv_def by blast
  qed
qed

lemma serial_inv_range: "serial_inv s \<Longrightarrow> 0 \<le> serial s \<and> serial s \<le> 2 ^ 53 \<and> 1 \<le> serial s"
  by (simp add: serial_inv_def)

lemma serial_inv_broadcastStatus: "serial_inv s \<Longrightarrow> serial_inv (fst (broadcastStatus f s))"
  by (frule serial_inv_range, erule serial_inv_send) (simp_all add: serials_broadcastStatus)

lemma endpoint_inv_broadcastStatus: "endpoint_inv s \<Longrightarrow> endpoint_inv (fst (broadcastStatus f s))"
  by (simp add: endpoint_inv_def)

lemma map_of_filter_other:
  "map_of (filter (\<lambda>(k', _). k' \<noteq> k) xs) name = (if name = k then None else map_of xs name)"
  by (induction xs) auto

lemma getOption_put_option:
  "getOption (put_option opts k v) name = (if name = k then Some v else getOption opts name)"
  by (auto simp: getOption_def put_option_def map_add_def map_of_filter_other split: option.splits)

lemma setUriPath_status:
  "setUriPath res ''/cit/s'' =
     Inr (res\<lparr>res_options := put_option (res_options res) ''Uri-Path'' [Buffer_from ''cit'', Buffer_from ''s'']\<rparr>)"
  by (simp add: setUriPath_def setOption_def)

lemma res_end_fields [simp]:
  "res_options (res_end res b) = res_options res"
  "res_ended (res_end res b) = Some b"
  by (simp_all add: res_end_def)

lemma handleStatusRequest_eq:
  assumes "0 \<le> serial s" "serial s \<le> 2 ^ 53"
  shows "handleStatusRequest f req res s =
     (let res3 = res\<lparr>res_options :=
            put_option
              (put_option
                (put_option (res_options res) ''Uri-Path'' [Buffer_from ''cit'', Buffer_from ''s''])
                GLOBAL_DEVID [Buffer_from (getDeviceIdentifier (device s))])
              STATUS_VALIDITY [uint16BE 38400]\<rparr>;
          res5 = res_end (res3\<lparr>res_options := put_option (res_options res3) STATUS_SERIAL [uint16BE (serial s)]\<rparr>)
                   (f (coapStatusPayload (device s)));
          s2 = s\<lparr>console := console s @ [''GET /cit/s''], serial := Number_of_int (serial s + 1)\<rparr>
      in if serial s \<le> 65535
         then (s2\<lparr>network := network s @ [(now s, Response res5)]\<rparr>, res5, None)
         else (s2, res3, Some ERR_OUT_OF_RANGE))"
  using assms
  by (simp add: handleStatusRequest_def setUriPath_status setOption_def convert_GLOBAL_DEVID
      convert_STATUS_VALIDITY convert_STATUS_SERIAL Let_def)

lemma handleStatusRequest_frame [simp]:
  "device (fst (handleStatusRequest f req res s)) = device s"
  "server (fst (handleStatusRequest f req res s)) = server s"
  "multicastServer (fst (handleStatusRequest f req res s)) = multicastServer s"
  "endpoints (fst (handleStatusRequest f req res s)) = endpoints s"
  "now (fst (handleStatusRequest f req res s)) = now s"
  "timers (fst (handleStatusRequest f req res s)) = timers s"
  "next_timer (fst (handleStatusRequest f req res s)) = next_timer s"
  "statusBroadcastTimeout (fst (handleStatusRequest f req res s)) = statusBroadcastTimeout s"
  "uncaught (fst (handleStatusRequest f req res s)) = uncaught s"
  "console_error (fst (handleStatusRequest f req res s)) = console_error s"
  "console (fst (handleStatusRequest f req res s)) = console s @ [''GET /cit/s'']"
  by (simp_all add: handleStatusRequest_def setUriPath_status setOption_def Let_def
      split: sum.splits)

lemma serial_handleStatusRequest:
  assumes "0 \<le> serial s" "serial s \<le> 2 ^ 53"
  shows "serial (fst (handleStatusRequest f req res s)) = Number_of_int (serial s + 1)"
  by (simp add: handleStatusRequest_eq [OF assms] Let_def)

lemma serials_handleStatusRequest:
  assumes "0 \<le> serial s" "serial s \<le> 2 ^ 53"
  shows "serials (fst (handleStatusRequest f req res s)) =
     (if serial s \<le> 65535 then serials s @ [Some [uint16BE (serial s)]] else serials s)"
  by (simp add: handleStatusRequest_eq [OF assms] Let_def serials_def getOption_put_option)

lemma serial_inv_handleStatusRequest:
  "serial_inv s \<Longrightarrow> serial_inv (fst (handleStatusRequest f req res s))"
  by (frule serial_inv_range, erule serial_inv_send)
    (simp_all add: serials_handleStatusRequest serial_handleStatusRequest)

lemma timer_inv_handleStatusRequest:
  "timer_inv s \<Longrightarrow> timer_inv (fst (handleStatusRequest f req res s))"
  by (simp add: timer_inv_def)

lemma endpoint_inv_handleStatusRequest:
  "endpoint_inv s \<Longrightarrow> endpoint_inv (fst (handleStatusRequest f req res s))"
  by (simp add: endpoint_inv_def)

lemma requestHandler_fst:
  "fst (requestHandler f req res s) =
     (if req_method req = ''GET'' \<and> req_url req = ''/cit/s''
      then (case snd (snd (handleStatusRequest f req res s)) of
              None \<Rightarrow> fst (handleStatusRequest f req res s)
            | Some e \<Rightarrow> (fst (handleStatusRequest f req res s))
                \<lparr>console_error := console_error (fst (handleStatusRequest f req res s)) @ [e]\<rparr>)
      else s)"
  by (simp add: requestHandler_def del: handleStatusRequest_frame split: prod.splits option.splits)

lemma inv_console_error:
  "timer_inv (s\<lparr>console_error := c\<rparr>) = timer_inv s"
  "endpoint_inv (s\<lparr>console_error := c\<rparr>) = endpoint_inv s"
  "serial_inv (s\<lparr>console_error := c\<rparr>) = serial_inv s"
  by (simp_all add: timer_inv_def endpoint_inv_def serial_inv_def serials_def)

lemma inv_uncaught:
  "timer_inv (s\<lparr>uncaught := c\<rparr>) = timer_inv s"
  "endpoint_inv (s\<lparr>uncaught := c\<rparr>) = endpoint_inv s"
  "serial_inv (s\<lparr>uncaught := c\<rparr>) = serial_inv s"
  by (simp_all add: timer_inv_def endpoint_inv_def serial_inv_def serials_def)

lemma inv_requestHandler:
  "timer_inv s \<Longrightarrow> timer_inv (fst (requestHandler f req res s))"
  "endpoint_inv s \<Longrightarrow> endpoint_inv (fst (requestHandler f req res s))"
  "serial_inv s \<Longrightarrow> serial_inv (fst (requestHandler f req res s))"
  by (simp_all add: requestHandler_fst inv_console_error timer_inv_handleStatusRequest
      endpoint_inv_handleStatusRequest serial_inv_handleStatusRequest split: option.splits)

lemma shut_frame [simp]:
  "device (removeListener_request h (close h s)) = device s"
  "server (removeListener_request h (close h s)) = server s"
  "multicastServer (removeListener_request h (close h s)) = multicastServer s"
  "serial (removeListener_request h (close h s)) = serial s"
  "statusBroadcastTimeout (removeListener_request h (close h s)) = statusBroadcastTimeout s"
  "timers (removeListener_request h (close h s)) = timers s"
  "next_timer (removeListener_request h (close h s)) = next_timer s"
  "now (removeListener_request h (close h s)) = now s"
  "network (removeListener_request h (close h s)) = network s"
  "console (removeListener_request h (close h s)) = console s"
  "console_error (removeListener_request h (close h s)) = console_error s"
  "uncaught (removeListener_request h (close h s)) = uncaught s"
  "length (endpoints (removeListener_request h (close h s))) = length (endpoints s)"
  by (simp_all add: removeListener_request_def close_def)

lemma shut_closed:
  "i < length (endpoints s) \<Longrightarrow>
     ep_closed (endpoints (removeListener_request h (close h s)) ! i) \<longleftrightarrow>
       i = h \<or> ep_closed (endpoints s ! i)"
  by (simp add: removeListener_request_def close_def nth_list_update)

lemma stop_frame [simp]:
  "server (stop s) = None"
  "multicastServer (stop s) = None"
  "statusBroadcastTimeout (stop s) = None"
  "serial (stop s) = serial s"
  "network (stop s) = network s"
  "now (stop s) = now s"
  "console (stop s) = console s"
  "console_error (stop s) = console_error s"
  "uncaught (stop s) = uncaught s"
  "next_timer (stop s) = next_timer s"
  "device (stop s) = (device s)\<lparr>change_listeners := 0\<rparr>"
  "length (endpoints (stop s)) = length (endpoints s)"
  by (simp_all add: stop_def Let_def clearTimeout_def split: option.splits)

lemma timers_stop:
  "timers (stop s) =
     (case statusBroadcastTimeout s of None \<Rightarrow> timers s
      | Some h \<Rightarrow> filter (\<lambda>(h', _). h' \<noteq> h) (timers s))"
  by (simp add: stop_def Let_def clearTimeout_def split: option.splits)

lemma closed_stop:
  "i < length (endpoints s) \<Longrightarrow>
     ep_closed (endpoints (stop s) ! i) \<longleftrightarrow>
       ep_closed (endpoints s ! i) \<or> server s = Some i \<or> multicastServer s = Some i"
  by (auto simp: stop_def Let_def clearTimeout_def shut_closed split: option.splits)

lemma stop_torn_down:
  assumes "timer_inv s" "endpoint_inv s"
  shows "torn_down (stop s)"
proof -
  have "timers (stop s) = []"
    using assms(1) by (simp add: timers_stop timer_inv_single)
  moreover have "list_all ep_closed (endpoints (stop s))"
    unfolding list_all_length
  proof (intro allI impI)
    fix i assume "i < length (endpoints (stop s))"
    then have i: "i < length (endpoints s)" by simp
    with assms(2) have "ep_closed (endpoints s ! i) \<or> server s = Some i \<or> multicastServer s = Some i"
      by (simp add: endpoint_inv_def)
    with i show "ep_closed (endpoints (stop s) ! i)" by (simp add: closed_stop)
  qed
  ultimately show ?thesis by (simp add: torn_down_def)
qed

lemma stop_idem: "stop (stop s) = stop s"
proof -
  have "stop (stop s) = (stop s)\<lparr>device := (device (stop s))\<lparr>change_listeners := 0\<rparr>\<rparr>"
    by (simp add: stop_def [of "stop s"] Let_def del: stop_frame(11))
  then show ?thesis by simp
qed

lemma inv_stop:
  "timer_inv s \<Longrightarrow> timer_inv (stop s)"
  "endpoint_inv s \<Longrightarrow> endpoint_inv (stop s)"
  "serial_inv s \<Longrightarrow> serial_inv (stop s)"
proof -
  show "timer_inv s \<Longrightarrow> timer_inv (stop s)"
    by (simp add: timer_inv_def [of "stop s"] timers_stop timer_inv_single)
  show "endpoint_inv s \<Longrightarrow> endpoint_inv (stop s)"
    by (simp add: endpoint_inv_def closed_stop)
  show "serial_inv s \<Longrightarrow> serial_inv (stop s)"
    by (simp add: serial_inv_def serials_def)
qed


lemma start_sync_frame [simp]:
  "serial (fst (start_sync s)) = serial s"
  "statusBroadcastTimeout (fst (start_sync s)) = statusBroadcastTimeout s"
  "timers (fst (start_sync s)) = timers s"
  "next_timer (fst (start_sync s)) = next_timer s"
  "now (fst (start_sync s)) = now s"
  "network (fst (start_sync s)) = network s"
  "console (fst (start_sync s)) = console s"
  "console_error (fst (start_sync s)) = console_error s"
  "uncaught (fst (start_sync s)) = uncaught s"
  "device (fst (start_sync s)) = (device s)\<lparr>change_listeners := Suc (change_listeners (device s))\<rparr>"
  by (simp_all add: start_sync_def startServer_def startMulticastServer_def createServer_def
      on_request_def Let_def split: prod.splits)

lemma start_sync_created:
  "fst (snd (start_sync s)) \<longleftrightarrow> server s = None"
  "snd (snd (start_sync s)) \<longleftrightarrow> multicastServer s = None"
  by (simp_all add: start_sync_def startServer_def startMulticastServer_def createServer_def
      on_request_def Let_def split: prod.splits)

lemma endpoint_inv_startServer: "endpoint_inv s \<Longrightarrow> endpoint_inv (fst (startServer s))"
  by (auto simp: endpoint_inv_def startServer_def createServer_def on_request_def Let_def
      nth_append nth_list_update less_Suc_eq)

lemma endpoint_inv_startMulticastServer:
  "endpoint_inv s \<Longrightarrow> endpoint_inv (fst (startMulticastServer s))"
  by (auto simp: endpoint_inv_def startMulticastServer_def createServer_def on_request_def Let_def
      nth_append nth_list_update less_Suc_eq)

lemma start_sync_fst:
  "fst (start_sync s) =
     fst (startMulticastServer (fst (startServer
       (s\<lparr>device := (device s)\<lparr>change_listeners := Suc (change_listeners (device s))\<rparr>\<rparr>))))"
  by (simp add: start_sync_def Let_def split: prod.splits)

lemma inv_start_sync:
  "timer_inv s \<Longrightarrow> timer_inv (fst (start_sync s))"
  "endpoint_inv s \<Longrightarrow> endpoint_inv (fst (start_sync s))"
  "serial_inv s \<Longrightarrow> serial_inv (fst (start_sync s))"
proof -
  show "timer_inv s \<Longrightarrow> timer_inv (fst (start_sync s))"
    by (simp add: timer_inv_def)
  show "serial_inv s \<Longrightarrow> serial_inv (fst (start_sync s))"
    by (simp add: serial_inv_def serials_def)
  assume "endpoint_inv s"
  then have "endpoint_inv (s\<lparr>device := (device s)\<lparr>change_listeners := Suc (change_listeners (device s))\<rparr>\<rparr>)"
    by (simp add: endpoint_inv_def)
  then show "endpoint_inv (fst (start_sync s))"
    unfolding start_sync_fst
    by (intro endpoint_inv_startMulticastServer endpoint_inv_startServer)
qed

lemma start_settle_fst:
  "fst (start_settle f r s) =
     (case r of
        None \<Rightarrow> (case snd (broadcastStatus f s) of
                   None \<Rightarrow> fst (broadcastStatus f s)
                 | Some e \<Rightarrow> stop (fst (broadcastStatus f s)))
      | Some e \<Rightarrow> stop s)"
  by (simp add: start_settle_def split: option.splits prod.splits)

lemma start_settle_snd:
  "snd (start_settle f r s) = (case r of None \<Rightarrow> snd (broadcastStatus f s) | Some e \<Rightarrow> Some e)"
  by (simp add: start_settle_def split: option.splits prod.splits)

lemma inv_start_settle:
  "timer_inv s \<Longrightarrow> timer_inv (fst (start_settle f r s))"
  "endpoint_inv s \<Longrightarrow> endpoint_inv (fst (start_settle f r s))"
  "serial_inv s \<Longrightarrow> serial_inv (fst (start_settle f r s))"
  by (simp_all add: start_settle_fst inv_stop timer_inv_broadcastStatus
      endpoint_inv_broadcastStatus serial_inv_broadcastStatus split: option.splits)

lemma deviceChangeHandler_eq: "deviceChangeHandler f = broadcastStatus f"
  by (rule ext) (simp add: deviceChangeHandler_def)

lemma call_listeners_preserves:
  assumes "\<And>s. P s \<Longrightarrow> P (fst (h s))" "P s"
  shows "P (fst (call_listeners n h s))"
  using assms(2)
proof (induction n arbitrary: s)
  case 0
  then show ?case by simp
next
  case (Suc n)
  obtain s1 r where h: "h s = (s1, r)" by (cases "h s")
  have "P (fst (h s))" using Suc.prems by (rule assms(1))
  with h have s1: "P s1" by simp
  show ?case
  proof (cases r)
    case None
    with h Suc.IH [OF s1] show ?thesis by simp
  next
    case (Some e)
    with h s1 show ?thesis by simp
  qed
qed

lemma inv_emit_change:
  "timer_inv s \<Longrightarrow> timer_inv (fst (emit_change f p s))"
  "endpoint_inv s \<Longrightarrow> endpoint_inv (fst (emit_change f p s))"
  "serial_inv s \<Longrightarrow> serial_inv (fst (emit_change f p s))"
proof -
  show "timer_inv s \<Longrightarrow> timer_inv (fst (emit_change f p s))"
    unfolding emit_change_def deviceChangeHandler_eq
    by (rule call_listeners_preserves [where P = timer_inv])
      (simp_all add: timer_inv_broadcastStatus, simp add: timer_inv_def)
  show "endpoint_inv s \<Longrightarrow> endpoint_inv (fst (emit_change f p s))"
    unfolding emit_change_def deviceChangeHandler_eq
    by (rule call_listeners_preserves [where P = endpoint_inv])
      (simp_all add: endpoint_inv_broadcastStatus, simp add: endpoint_inv_def)
  show "serial_inv s \<Longrightarrow> serial_inv (fst (emit_change f p s))"
    unfolding emit_change_def deviceChangeHandler_eq
    by (rule call_listeners_preserves [where P = serial_inv])
      (simp_all add: serial_inv_broadcastStatus, simp add: serial_inv_def serials_def)
qed

lemma expire_eq:
  "expire f timer s =
     (let b = broadcastStatus f
          (s\<lparr>timers := filter (\<lambda>(h', _). h' \<noteq> fst timer) (timers s), now := max (now s) (snd timer)\<rparr>)
      in case snd b of None \<Rightarrow> fst b | Some e \<Rightarrow> (fst b)\<lparr>uncaught := uncaught (fst b) @ [e]\<rparr>)"
  by (simp add: expire_def Let_def del: broadcastStatus_frame split: prod.splits option.splits)

lemma inv_expire:
  "timer_inv s \<Longrightarrow> timer_inv (expire f timer s)"
  "endpoint_inv s \<Longrightarrow> endpoint_inv (expire f timer s)"
  "serial_inv s \<Longrightarrow> serial_inv (expire f timer s)"
proof -
  let ?s = "s\<lparr>timers := filter (\<lambda>(h', _). h' \<noteq> fst timer) (timers s), now := max (now s) (snd timer)\<rparr>"
  have len: "length (filter (\<lambda>(h', _). h' \<noteq> fst timer) (timers s)) \<le> length (timers s)"
    by (rule length_filter_le)
  have "timer_inv ?s" if "timer_inv s"
  proof -
    from that have one: "length (timers s) \<le> 1"
      and held: "\<forall>x \<in> set (timers s). statusBroadcastTimeout s = Some (fst x)"
      by (simp_all add: timer_inv_def)
    from len one have "length (timers ?s) \<le> 1" by (simp del: length_filter_le)
    moreover from held have "\<forall>x \<in> set (timers ?s). statusBroadcastTimeout ?s = Some (fst x)"
      by simp
    ultimately show ?thesis unfolding timer_inv_def by blast
  qed
  then have "timer_inv s \<Longrightarrow> timer_inv (fst (broadcastStatus f ?s))"
    by (rule timer_inv_broadcastStatus)
  then show "timer_inv s \<Longrightarrow> timer_inv (expire f timer s)"
    by (simp add: expire_eq Let_def inv_uncaught split: option.splits)
  have "endpoint_inv s \<Longrightarrow> endpoint_inv (fst (broadcastStatus f ?s))"
    by (rule endpoint_inv_broadcastStatus) (simp add: endpoint_inv_def)
  then show "endpoint_inv s \<Longrightarrow> endpoint_inv (expire f timer s)"
    by (simp add: expire_eq Let_def inv_uncaught split: option.splits)
  have "serial_inv s \<Longrightarrow> serial_inv (fst (broadcastStatus f ?s))"
    by (rule serial_inv_broadcastStatus) (simp add: serial_inv_def serials_def)
  then show "serial_inv s \<Longrightarrow> serial_inv (expire f timer s)"
    by (simp add: expire_eq Let_def inv_uncaught split: option.splits)
qed

lemma advance_preserves:
  assumes "\<And>timer s. P s \<Longrightarrow> P (expire f timer s)" "\<And>s k. P s \<Longrightarrow> P (s\<lparr>now := k\<rparr>)" "P s"
  shows "P (advance f t s)"
  using assms
proof (induction f t s rule: advance.induct)
  case (1 f t s)
  show ?case
  proof (cases "earliest (timers s)")
    case None
    then show ?thesis using "1.prems" by (subst advance.simps) simp
  next
    case (Some timer)
    show ?thesis
    proof (cases "snd timer \<le> t")
      case True
      have "P (advance f t (expire f timer s))"
        using Some True "1.prems" by (intro "1.IH") auto
      then show ?thesis using Some True by (subst advance.simps) simp
    next
      case False
      then show ?thesis using Some "1.prems" by (subst advance.simps) simp
    qed
  qed
qed

lemma inv_advance:
  "timer_inv s \<Longrightarrow> timer_inv (advance f t s)"
  "endpoint_inv s \<Longrightarrow> endpoint_inv (advance f t s)"
  "serial_inv s \<Longrightarrow> serial_inv (advance f t s)"
proof -
  show "timer_inv s \<Longrightarrow> timer_inv (advance f t s)"
    by (rule advance_preserves [where P = timer_inv]) (simp_all add: inv_expire, simp add: timer_inv_def)
  show "endpoint_inv s \<Longrightarrow> endpoint_inv (advance f t s)"
    by (rule advance_preserves [where P = endpoint_inv]) (simp_all add: inv_expire, simp add: endpoint_inv_def)
  show "serial_inv s \<Longrightarrow> serial_inv (advance f t s)"
    by (rule advance_preserves [where P = serial_inv])
      (simp_all add: inv_expire, simp add: serial_inv_def serials_def)
qed

lemma inv_step:
  "timer_inv s \<Longrightarrow> timer_inv (step f ev s)"
  "endpoint_inv s \<Longrightarrow> endpoint_inv (step f ev s)"
  "serial_inv s \<Longrightarrow> serial_inv (step f ev s)"
  by (cases ev; simp add: inv_start_sync inv_start_settle inv_stop inv_emit_change inv_advance
      inv_requestHandler)+

lemma inv_CoapServer:
  "timer_inv (CoapServer dev)" "endpoint_inv (CoapServer dev)" "serial_inv (CoapServer dev)"
  by (simp_all add: timer_inv_def endpoint_inv_def serial_inv_def serials_def CoapServer_def)

lemma run_Cons: "run f (ev # evs) s = run f evs (step f ev s)"
  by (simp add: run_def)

lemma inv_run:
  "timer_inv s \<Longrightarrow> timer_inv (run f evs s)"
  "endpoint_inv s \<Longrightarrow> endpoint_inv (run f evs s)"
  "serial_inv s \<Longrightarrow> serial_inv (run f evs s)"
proof (induction evs arbitrary: s)
  case Nil
  {
    case 1 then show ?case by (simp add: run_def)
  next
    case 2 then show ?case by (simp add: run_def)
  next
    case 3 then show ?case by (simp add: run_def)
  }
next
  case (Cons ev evs)
  {
    case 1 then show ?case by (simp add: run_Cons Cons.IH(1) inv_step(1))
  next
    case 2 then show ?case by (simp add: run_Cons Cons.IH(2) inv_step(2))
  next
    case 3 then show ?case by (simp add: run_Cons Cons.IH(3) inv_step(3))
  }
qed

lemma inv_reachable:
  "timer_inv (run f evs (CoapServer dev))"
  "endpoint_inv (run f evs (CoapServer dev))"
  "serial_inv (run f evs (CoapServer dev))"
  by (simp_all add: inv_run inv_CoapServer)

subsection \<open>Timers that fall due\<close>

lemma advance_none: "timers s = [] \<Longrightarrow> advance f t s = s\<lparr>now := max (now s) t\<rparr>"
  by (subst advance.simps) simp

lemma advance_idle: "timers s = [(h, d)] \<Longrightarrow> t < d \<Longrightarrow> advance f t s = s\<lparr>now := max (now s) t\<rparr>"
  by (subst advance.simps) simp

lemma timers_expire_single:
  "timers s = [(h, d)] \<Longrightarrow> timers (expire f (h, d) s) = [(next_timer s, max (now s) d + 30000)]"
  by (simp add: timers_expire timers_broadcastStatus split: option.splits)

lemma expire_frame [simp]:
  "now (expire f timer s) = max (now s) (snd timer)"
  "device (expire f timer s) = device s"
  "server (expire f timer s) = server s"
  "serial (expire f timer s) = Number_of_int (serial s + 1)"
  "next_timer (expire f timer s) = Suc (next_timer s)"
  by (simp_all add: expire_eq Let_def split: option.splits)

lemma network_expire:
  assumes "0 \<le> serial s" "serial s \<le> 2 ^ 53"
  shows "network (expire f timer s) =
     (if serial s \<le> 65535
      then network s @
        [(max (now s) (snd timer), Announcement
           \<lparr>msg_host = COAP_MULTICAST_ADDRESS, msg_pathname = ''/cit/s'',
            msg_options =
              [(GLOBAL_DEVID, [Buffer_from (getDeviceIdentifier (device s))]),
               (STATUS_VALIDITY, [uint16BE 38400]),
               (STATUS_SERIAL, [uint16BE (serial s)])],
            msg_multicast = True, msg_multicastTimeout = 100, msg_statusCode = ''0.30''\<rparr>
           (f (coapStatusPayload (device s))))]
      else network s)"
proof -
  let ?s = "s\<lparr>timers := filter (\<lambda>(h', _). h' \<noteq> fst timer) (timers s), now := max (now s) (snd timer)\<rparr>"
  have "network (expire f timer s) = network (fst (broadcastStatus f ?s))"
    by (simp add: expire_eq Let_def split: option.splits)
  moreover have "0 \<le> serial ?s" "serial ?s \<le> 2 ^ 53" using assms by simp_all
  ultimately show ?thesis by (simp add: network_broadcastStatus)
qed

lemma uncaught_expire:
  assumes "0 \<le> serial s" "serial s \<le> 2 ^ 53"
  shows "uncaught (expire f timer s) =
     (if serial s \<le> 65535 then uncaught s else uncaught s @ [ERR_OUT_OF_RANGE])"
proof -
  let ?s = "s\<lparr>timers := filter (\<lambda>(h', _). h' \<noteq> fst timer) (timers s), now := max (now s) (snd timer)\<rparr>"
  have "0 \<le> serial ?s" "serial ?s \<le> 2 ^ 53" using assms by simp_all
  then have "snd (broadcastStatus f ?s) = (if serial s \<le> 65535 then None else Some ERR_OUT_OF_RANGE)"
    by (simp add: thrown_broadcastStatus)
  then show ?thesis by (simp add: expire_eq Let_def)
qed

lemma advance_fire_once:
  assumes "timers s = [(h, d)]" "now s \<le> d" "d \<le> t" "t < d + 30000"
  shows "advance f t s = (expire f (h, d) s)\<lparr>now := t\<rparr>"
proof -
  have "advance f t s = advance f t (expire f (h, d) s)"
    using assms(1,3) by (subst advance.simps) simp
  also have "\<dots> = (expire f (h, d) s)\<lparr>now := max (now (expire f (h, d) s)) t\<rparr>"
  proof (rule advance_idle)
    show "timers (expire f (h, d) s) = [(next_timer s, d + 30000)]"
      using assms(1,2) by (simp add: timers_expire_single max_def)
    show "t < d + 30000" by (rule assms(4))
  qed
  also have "now (expire f (h, d) s) = d"
    using assms(2) by simp
  finally show ?thesis using assms(3) by (simp add: max_def)
qed

lemma call_listeners_frame:
  "now (fst (call_listeners n (broadcastStatus f) s)) = now s"
  "device (fst (call_listeners n (broadcastStatus f) s)) = device s"
proof -
  show "now (fst (call_listeners n (broadcastStatus f) s)) = now s"
    by (rule call_listeners_preserves [where P = "\<lambda>x. now x = now s"]) simp_all
  show "device (fst (call_listeners n (broadcastStatus f) s)) = device s"
    by (rule call_listeners_preserves [where P = "\<lambda>x. device x = device s"]) simp_all
qed

lemma timers_call_listeners:
  "timer_inv s \<Longrightarrow> 0 < n \<Longrightarrow>
     \<exists>h. timers (fst (call_listeners n (broadcastStatus f) s)) = [(h, now s + 30000)]"
proof (induction n arbitrary: s)
  case 0
  then show ?case by simp
next
  case (Suc n)
  obtain s1 r where b: "broadcastStatus f s = (s1, r)" by (cases "broadcastStatus f s")
  then have s1: "s1 = fst (broadcastStatus f s)" by simp
  have ts: "timers s1 = [(next_timer s, now s + 30000)]"
    unfolding s1 using Suc.prems(1) by (rule timers_broadcastStatus_inv)
  have inv: "timer_inv s1" unfolding s1 using Suc.prems(1) by (rule timer_inv_broadcastStatus)
  have nw: "now s1 = now s" unfolding s1 by simp
  show ?case
  proof (cases r)
    case (Some e)
    with b ts show ?thesis by simp
  next
    case None
    show ?thesis
    proof (cases n)
      case 0
      with None b ts show ?thesis by simp
    next
      case (Suc m)
      then have "0 < n" by simp
      from Suc.IH [OF inv this] nw None b show ?thesis by simp
    qed
  qed
qed

lemma emit_change_frame:
  "now (fst (emit_change f p s)) = now s"
  "device (fst (emit_change f p s)) = (device s)\<lparr>coapStatusPayload := p\<rparr>"
  by (simp_all add: emit_change_def deviceChangeHandler_eq call_listeners_frame)

lemma timers_emit_change:
  assumes "timer_inv s" "0 < change_listeners (device s)"
  shows "\<exists>h. timers (fst (emit_change f p s)) = [(h, now s + 30000)]"
proof -
  have "timer_inv (s\<lparr>device := (device s)\<lparr>coapStatusPayload := p\<rparr>\<rparr>)"
    using assms(1) by (simp add: timer_inv_def)
  from timers_call_listeners [OF this assms(2), of f]
  show ?thesis by (simp add: emit_change_def deviceChangeHandler_eq)
qed

lemma emit_change_one:
  "change_listeners (device s) = Suc 0 \<Longrightarrow>
     emit_change f p s = broadcastStatus f (s\<lparr>device := (device s)\<lparr>coapStatusPayload := p\<rparr>\<rparr>)"
  by (simp add: emit_change_def deviceChangeHandler_eq split: prod.splits option.splits)

subsection \<open>Traces\<close>

lemma run_Nil: "run f [] s = s"
  by (simp add: run_def)

lemma run_append: "run f (xs @ ys) s = run f ys (run f xs s)"
  by (simp add: run_def)

lemma requestHandler_frame [simp]:
  "device (fst (requestHandler f req res s)) = device s"
  "server (fst (requestHandler f req res s)) = server s"
  "multicastServer (fst (requestHandler f req res s)) = multicastServer s"
  "endpoints (fst (requestHandler f req res s)) = endpoints s"
  "now (fst (requestHandler f req res s)) = now s"
  "timers (fst (requestHandler f req res s)) = timers s"
  "next_timer (fst (requestHandler f req res s)) = next_timer s"
  "statusBroadcastTimeout (fst (requestHandler f req res s)) = statusBroadcastTimeout s"
  "uncaught (fst (requestHandler f req res s)) = uncaught s"
  by (simp_all add: requestHandler_fst split: option.splits)

lemma requestHandler_status:
  assumes "req_method req = ''GET''" "req_url req = ''/cit/s''" "0 \<le> serial s" "serial s \<le> 2 ^ 53"
  shows "requestHandler f req res s =
     (let res3 = res\<lparr>res_options :=
            put_option
              (put_option
                (put_option (res_options res) ''Uri-Path'' [Buffer_from ''cit'', Buffer_from ''s''])
                GLOBAL_DEVID [Buffer_from (getDeviceIdentifier (device s))])
              STATUS_VALIDITY [uint16BE 38400]\<rparr>;
          res5 = res_end (res3\<lparr>res_options := put_option (res_options res3) STATUS_SERIAL [uint16BE (serial s)]\<rparr>)
                   (f (coapStatusPayload (device s)));
          s2 = s\<lparr>console := console s @ [''GET /cit/s''], serial := Number_of_int (serial s + 1)\<rparr>
      in if serial s \<le> 65535
         then (s2\<lparr>network := network s @ [(now s, Response res5)]\<rparr>, res5, None)
         else (s2\<lparr>console_error := console_error s @ [ERR_OUT_OF_RANGE]\<rparr>, res3, Some ERR_OUT_OF_RANGE))"
  using assms(1,2) by (simp add: requestHandler_def handleStatusRequest_eq [OF assms(3,4)] Let_def)

lemma run_requests_frame:
  "timers (run f (replicate n (Incoming req res)) s) = timers s \<and>
   now (run f (replicate n (Incoming req res)) s) = now s \<and>
   device (run f (replicate n (Incoming req res)) s) = device s \<and>
   next_timer (run f (replicate n (Incoming req res)) s) = next_timer s \<and>
   statusBroadcastTimeout (run f (replicate n (Incoming req res)) s) = statusBroadcastTimeout s \<and>
   server (run f (replicate n (Incoming req res)) s) = server s \<and>
   multicastServer (run f (replicate n (Incoming req res)) s) = multicastServer s \<and>
   uncaught (run f (replicate n (Incoming req res)) s) = uncaught s"
proof (induction n arbitrary: s)
  case 0
  show ?case by (simp add: run_Nil)
next
  case (Suc n)
  show ?case using Suc [of "fst (requestHandler f req res s)"] by (simp add: run_Cons)
qed

lemma run_requests_serial:
  assumes "req_method req = ''GET''" "req_url req = ''/cit/s''"
  shows "1 \<le> serial s \<Longrightarrow> serial s + int n \<le> 65536 \<Longrightarrow>
     serial (run f (replicate n (Incoming req res)) s) = serial s + int n \<and>
     map fst (network (run f (replicate n (Incoming req res)) s)) =
       map fst (network s) @ replicate n (now s)"
proof (induction n arbitrary: s)
  case 0
  show ?case by (simp add: run_Nil)
next
  case (Suc n)
  let ?s = "fst (requestHandler f req res s)"
  have range: "0 \<le> serial s" "serial s \<le> 2 ^ 53" "serial s \<le> 65535"
    using Suc.prems by simp_all
  have "\<bar>serial s + 1\<bar> \<le> 2 ^ 53" using Suc.prems by simp
  then have num: "Number_of_int (serial s + 1) = serial s + 1" by (rule Number_of_int_exact)
  have ser: "serial ?s = serial s + 1"
    using range(3) by (simp add: requestHandler_status [OF assms range(1,2)] Let_def num)
  have net: "map fst (network ?s) = map fst (network s) @ [now s]"
    using range(3) by (simp add: requestHandler_status [OF assms range(1,2)] Let_def)
  have "1 \<le> serial ?s" "serial ?s + int n \<le> 65536" using Suc.prems ser by simp_all
  from Suc.IH [OF this] ser net show ?case
    by (simp add: run_Cons replicate_append_same)
qed

lemma start_eq:
  "start f cb1 cb2 s =
     start_settle f
       (Promise_all [listen_promise (fst (snd (start_sync s))) cb1,
                     listen_promise (snd (snd (start_sync s))) cb2])
       (fst (start_sync s))"
  by (simp add: start_def split: prod.splits)

lemma start_listening:
  "start f Listening Listening s = start_settle f None (fst (start_sync s))"
  by (simp add: start_eq listen_promise_def)

lemma start_settle_sends:
  assumes "0 \<le> serial s" "serial s \<le> 65535"
  shows "start_settle f None s = (fst (broadcastStatus f s), None)"
proof -
  have "snd (broadcastStatus f s) = None" using assms by (simp add: thrown_broadcastStatus)
  then show ?thesis by (auto simp: start_settle_def split: prod.splits option.splits)
qed

lemma started_eq:
  "run f [Call_start, Listeners_settled None] (CoapServer dev) =
     fst (broadcastStatus f (fst (start_sync (CoapServer dev))))"
proof -
  have "serial (fst (start_sync (CoapServer dev))) = 1" by (simp add: CoapServer_def)
  then have "0 \<le> serial (fst (start_sync (CoapServer dev)))"
    "serial (fst (start_sync (CoapServer dev))) \<le> 65535" by simp_all
  then show ?thesis by (simp add: run_def start_settle_sends)
qed

lemma started:
  "now (run f [Call_start, Listeners_settled None] (CoapServer dev)) = 0"
  "timers (run f [Call_start, Listeners_settled None] (CoapServer dev)) = [(0, 30000)]"
  "next_timer (run f [Call_start, Listeners_settled None] (CoapServer dev)) = 1"
  "serial (run f [Call_start, Listeners_settled None] (CoapServer dev)) = 2"
  "device (run f [Call_start, Listeners_settled None] (CoapServer dev)) =
     dev\<lparr>change_listeners := Suc (change_listeners dev)\<rparr>"
  "map fst (network (run f [Call_start, Listeners_settled None] (CoapServer dev))) = [0]"
  "statusBroadcastTimeout (run f [Call_start, Listeners_settled None] (CoapServer dev)) = Some 0"
  "uncaught (run f [Call_start, Listeners_settled None] (CoapServer dev)) = []"
proof -
  let ?s1 = "fst (start_sync (CoapServer dev))"
  have one: "serial ?s1 = 1" by (simp add: CoapServer_def)
  then have range: "0 \<le> serial ?s1" "serial ?s1 \<le> 65535" "serial ?s1 \<le> 2 ^ 53" by simp_all
  have r: "run f [Call_start, Listeners_settled None] (CoapServer dev) = fst (broadcastStatus f ?s1)"
    by (rule started_eq)
  have inv: "timer_inv ?s1" by (intro inv_start_sync inv_CoapServer)
  show "now (run f [Call_start, Listeners_settled None] (CoapServer dev)) = 0"
    by (simp add: r) (simp add: CoapServer_def)
  show "timers (run f [Call_start, Listeners_settled None] (CoapServer dev)) = [(0, 30000)]"
    by (simp add: r timers_broadcastStatus_inv [OF inv]) (simp add: CoapServer_def)
  show "next_timer (run f [Call_start, Listeners_settled None] (CoapServer dev)) = 1"
    by (simp add: r) (simp add: CoapServer_def)
  show "serial (run f [Call_start, Listeners_settled None] (CoapServer dev)) = 2"
    by (simp add: r) (simp add: CoapServer_def Number_of_int_exact)
  show "device (run f [Call_start, Listeners_settled None] (CoapServer dev)) =
     dev\<lparr>change_listeners := Suc (change_listeners dev)\<rparr>"
    by (simp add: r) (simp add: CoapServer_def)
  show "map fst (network (run f [Call_start, Listeners_settled None] (CoapServer dev))) = [0]"
    by (simp add: r network_broadcastStatus [OF range(1,3)] one) (simp add: CoapServer_def)
  show "statusBroadcastTimeout (run f [Call_start, Listeners_settled None] (CoapServer dev)) = Some 0"
    by (simp add: r) (simp add: CoapServer_def)
  show "uncaught (run f [Call_start, Listeners_settled None] (CoapServer dev)) = []"
    by (simp add: r) (simp add: CoapServer_def)
qed

lemma start_fresh:
  "fst (start f Listening Listening (CoapServer dev)) =
     run f [Call_start, Listeners_settled None] (CoapServer dev)"
  by (simp add: start_listening run_def)

section \<open>The claims\<close>

subsection \<open>The device identifier\<close>

text \<open>
  C9. For every device with string attributes type and id, the identifier is exactly the
  type, a \<^verbatim>\<open>#\<close>, the id and \<^verbatim>\<open>#1\<close>. It is a function of these two attributes
  alone: the payload and the subscriptions of the device do not enter, and nothing is
  changed or thrown.
\<close>

theorem C9_getDeviceIdentifier:
  "getDeviceIdentifier dev = dev_type dev @ ''#'' @ dev_id dev @ ''#1'' \<and>
   getDeviceIdentifier (dev\<lparr>coapStatusPayload := p, change_listeners := n\<rparr>) =
     getDeviceIdentifier dev"
  by (simp add: getDeviceIdentifier_def)

theorem C9_getDeviceIdentifier_witness:
  "getDeviceIdentifier
     \<lparr>dev_type = ''SHSW-1'', dev_id = ''B929CC'', coapStatusPayload = ''{}'', change_listeners = 0\<rparr>
   = ''SHSW-1#B929CC#1''"
  using C9_getDeviceIdentifier
    [of "\<lparr>dev_type = ''SHSW-1'', dev_id = ''B929CC'', coapStatusPayload = ''{}'', change_listeners = 0\<rparr>"]
  by simp

subsection \<open>The numeric options\<close>

text \<open>
  C4, as stated: outside 0 to 65535 the encode either fails or wraps. The Number
  \<^verbatim>\<open>1e21\<close> is outside the range; its string is \<^verbatim>\<open>1e+21\<close>, of which \<^verbatim>\<open>parseInt\<close>
  reads the 1, and both encoders return the buffer 00 01. That is not a failure, and it
  is not the value wrapped either: \<^verbatim>\<open>1e21\<close> modulo 65536 is 0.
\<close>

theorem C4_large_number_counterexample:
  "Number_toString 1000000000000000000000 = ''1e+21'' \<and>
   parseInt (JNum 1000000000000000000000) = Number 1 \<and>
   STATUS_VALIDITY_toBinary (JNum 1000000000000000000000) = Inr [0, 1] \<and>
   STATUS_SERIAL_toBinary (JNum 1000000000000000000000) = Inr [0, 1] \<and>
   (1000000000000000000000 :: int) mod 65536 = 0"
proof -
  have p: "parseInt (JNum 1000000000000000000000) = Number 1"
    by (simp add: parseInt_def Number_toString_1e21 parseInt_string_def isWhiteSpace_def
        isRadixDigit_def digitValue_def mathInt_def Let_def)
  then show ?thesis
    by (simp add: Number_toString_1e21 STATUS_VALIDITY_toBinary_def STATUS_SERIAL_toBinary_def
        writeUInt16BE_def Buffer_alloc_def numeral_2_eq_2)
qed

text \<open>
  C4, amended. For every integer n from 0 to 65535, the encoder of StatusValidity and the
  encoder of StatusSerial, given the Number n or its decimal numeral, return the two bytes
  of n in big-endian order, and the decoder returns n from them. Outside that range the
  encoders fail whenever \<^verbatim>\<open>parseInt\<close> reads a value below 0 or above 65535, and so for
  every safe integer outside the range: the encode throws a range error and returns no
  buffer. Nothing is wrapped.
\<close>

theorem C4_status_option_round_trip:
  "(0 \<le> n \<and> n \<le> 65535 \<longrightarrow>
      STATUS_VALIDITY_toBinary (JNum n) = Inr [word_of_int (n div 256), word_of_int n] \<and>
      STATUS_VALIDITY_toBinary (JStr (Number_toString n)) = Inr [word_of_int (n div 256), word_of_int n] \<and>
      STATUS_VALIDITY_toString [word_of_int (n div 256), word_of_int n] = Inr n \<and>
      STATUS_SERIAL_toBinary (JNum n) = Inr [word_of_int (n div 256), word_of_int n] \<and>
      STATUS_SERIAL_toBinary (JStr (Number_toString n)) = Inr [word_of_int (n div 256), word_of_int n] \<and>
      STATUS_SERIAL_toString [word_of_int (n div 256), word_of_int n] = Inr n) \<and>
   (parseInt x = Number k \<and> (k < 0 \<or> 65535 < k) \<longrightarrow>
      STATUS_VALIDITY_toBinary x = Inl ERR_OUT_OF_RANGE \<and>
      STATUS_SERIAL_toBinary x = Inl ERR_OUT_OF_RANGE) \<and>
   (Number_isSafeInteger m \<and> (m < 0 \<or> 65535 < m) \<longrightarrow>
      STATUS_VALIDITY_toBinary (JNum m) = Inl ERR_OUT_OF_RANGE \<and>
      STATUS_SERIAL_toBinary (JNum m) = Inl ERR_OUT_OF_RANGE)"
proof (intro conjI impI)
  assume n: "0 \<le> n \<and> n \<le> 65535"
  then have num: "parseInt (JNum n) = Number n" by (simp add: parseInt_JNum)
  then have str: "parseInt (JStr (Number_toString n)) = Number n"
    by (simp add: parseInt_def)
  have w: "writeUInt16BE (Buffer_alloc 2) (Number n) 0 = Inr [word_of_int (n div 256), word_of_int n]"
    using n by (simp add: writeUInt16BE_in_range uint16BE_def)
  have r: "readUInt16BE [word_of_int (n div 256), word_of_int n] 0 = Inr n"
    using n readUInt16BE_bytes [of n] by (simp add: uint16BE_def)
  show "STATUS_VALIDITY_toBinary (JNum n) = Inr [word_of_int (n div 256), word_of_int n]"
    by (simp add: STATUS_VALIDITY_toBinary_def num w)
  show "STATUS_VALIDITY_toBinary (JStr (Number_toString n)) = Inr [word_of_int (n div 256), word_of_int n]"
    by (simp add: STATUS_VALIDITY_toBinary_def str w)
  show "STATUS_VALIDITY_toString [word_of_int (n div 256), word_of_int n] = Inr n"
    by (simp add: STATUS_VALIDITY_toString_def r)
  show "STATUS_SERIAL_toBinary (JNum n) = Inr [word_of_int (n div 256), word_of_int n]"
    by (simp add: STATUS_SERIAL_toBinary_def num w)
  show "STATUS_SERIAL_toBinary (JStr (Number_toString n)) = Inr [word_of_int (n div 256), word_of_int n]"
    by (simp add: STATUS_SERIAL_toBinary_def str w)
  show "STATUS_SERIAL_toString [word_of_int (n div 256), word_of_int n] = Inr n"
    by (simp add: STATUS_SERIAL_toString_def r)
next
  assume "parseInt x = Number k \<and> (k < 0 \<or> 65535 < k)"
  then show "STATUS_VALIDITY_toBinary x = Inl ERR_OUT_OF_RANGE"
    by (auto simp: STATUS_VALIDITY_toBinary_def writeUInt16BE_def)
next
  assume "parseInt x = Number k \<and> (k < 0 \<or> 65535 < k)"
  then show "STATUS_SERIAL_toBinary x = Inl ERR_OUT_OF_RANGE"
    by (auto simp: STATUS_SERIAL_toBinary_def writeUInt16BE_def)
next
  assume m: "Number_isSafeInteger m \<and> (m < 0 \<or> 65535 < m)"
  then have "\<bar>m\<bar> \<le> 2 ^ 53" by (auto simp: Number_isSafeInteger_def)
  then have "parseInt (JNum m) = Number m" by (rule parseInt_JNum)
  with m show "STATUS_VALIDITY_toBinary (JNum m) = Inl ERR_OUT_OF_RANGE"
    by (auto simp: STATUS_VALIDITY_toBinary_def writeUInt16BE_def)
next
  assume m: "Number_isSafeInteger m \<and> (m < 0 \<or> 65535 < m)"
  then have "\<bar>m\<bar> \<le> 2 ^ 53" by (auto simp: Number_isSafeInteger_def)
  then have "parseInt (JNum m) = Number m" by (rule parseInt_JNum)
  with m show "STATUS_SERIAL_toBinary (JNum m) = Inl ERR_OUT_OF_RANGE"
    by (auto simp: STATUS_SERIAL_toBinary_def writeUInt16BE_def)
qed

theorem C4_status_option_round_trip_witness:
  "STATUS_VALIDITY_toBinary (JNum 38400) = Inr [150, 0] \<and>
   STATUS_VALIDITY_toString [150, 0] = Inr 38400 \<and>
   STATUS_SERIAL_toBinary (JStr ''258'') = Inr [1, 2] \<and>
   STATUS_SERIAL_toString [1, 2] = Inr 258 \<and>
   STATUS_SERIAL_toBinary (JStr ''70000'') = Inl ERR_OUT_OF_RANGE \<and>
   STATUS_VALIDITY_toBinary (JNum 65536) = Inl ERR_OUT_OF_RANGE \<and>
   STATUS_VALIDITY_toBinary (JNum (- 1)) = Inl ERR_OUT_OF_RANGE"
proof -
  have far: "parseInt (JStr ''70000'') = Number 70000"
    by (simp add: parseInt_def parseInt_string_def isWhiteSpace_def isRadixDigit_def
        digitValue_def mathInt_def Let_def)
  have safe: "Number_isSafeInteger 65536" "Number_isSafeInteger (- 1)"
    by (simp_all add: Number_isSafeInteger_def)
  have "decimal 258 = ''258''" by code_simp
  then have s258: "Number_toString 258 = ''258''"
    by (simp add: Number_toString_exact)
  have low: "(38400 :: byte) = 0" "(258 :: byte) = 2" by simp_all
  from C4_status_option_round_trip [of 38400 "JStr ''70000''" 70000 65536]
  have a: "STATUS_VALIDITY_toBinary (JNum 38400) = Inr [150, 0]"
    "STATUS_VALIDITY_toString [150, 0] = Inr 38400"
    "STATUS_SERIAL_toBinary (JStr ''70000'') = Inl ERR_OUT_OF_RANGE"
    "STATUS_VALIDITY_toBinary (JNum 65536) = Inl ERR_OUT_OF_RANGE"
    using far safe by (simp_all add: low)
  from C4_status_option_round_trip [of 258 "JStr ''70000''" 70000 "- 1"]
  have b: "STATUS_SERIAL_toBinary (JStr ''258'') = Inr [1, 2]"
    "STATUS_SERIAL_toString [1, 2] = Inr 258"
    "STATUS_VALIDITY_toBinary (JNum (- 1)) = Inl ERR_OUT_OF_RANGE"
    using far safe by (simp_all add: low s258)
  from a b show ?thesis by simp
qed

text \<open>
  C8, as stated: every non-numeric input makes the encode fail with an encoding error.
  The input \<^verbatim>\<open>'abc'\<close> is not numeric, \<^verbatim>\<open>parseInt\<close> reads it as \<^verbatim>\<open>NaN\<close>, and both
  encoders return the buffer 00 00 for it: nothing fails.
\<close>

theorem C8_non_numeric_input_counterexample:
  "parseInt (JStr ''abc'') = NaN \<and>
   STATUS_VALIDITY_toBinary (JStr ''abc'') = Inr [0, 0] \<and>
   STATUS_SERIAL_toBinary (JStr ''abc'') = Inr [0, 0]"
proof -
  have nan: "parseInt (JStr ''abc'') = NaN"
    by (simp add: parseInt_def parseInt_string_def isWhiteSpace_def isRadixDigit_def
        digitValue_def Let_def)
  then show ?thesis
    by (simp add: STATUS_VALIDITY_toBinary_def STATUS_SERIAL_toBinary_def writeUInt16BE_def
        Buffer_alloc_def numeral_2_eq_2)
qed

text \<open>
  C8, amended. For every non-numeric input, that is every input \<^verbatim>\<open>parseInt\<close> reads as
  \<^verbatim>\<open>NaN\<close>, the encoder of StatusValidity and the encoder of StatusSerial do not fail:
  they return the two-byte buffer 00 00. No error is thrown, so nothing can crash the
  process.
\<close>

theorem C8_non_numeric_input_encodes_zero:
  "parseInt x = NaN \<Longrightarrow>
     STATUS_VALIDITY_toBinary x = Inr [0, 0] \<and> STATUS_SERIAL_toBinary x = Inr [0, 0]"
  by (simp add: STATUS_VALIDITY_toBinary_def STATUS_SERIAL_toBinary_def writeUInt16BE_def
      Buffer_alloc_def numeral_2_eq_2)

theorem C8_non_numeric_input_encodes_zero_witness:
  "parseInt (JStr ''on'') = NaN \<and>
   STATUS_VALIDITY_toBinary (JStr ''on'') = Inr [0, 0] \<and>
   STATUS_SERIAL_toBinary (JStr ''on'') = Inr [0, 0]"
proof -
  have nan: "parseInt (JStr ''on'') = NaN"
    by (simp add: parseInt_def parseInt_string_def isWhiteSpace_def isRadixDigit_def
        digitValue_def Let_def)
  from C8_non_numeric_input_encodes_zero [OF nan] nan show ?thesis by simp
qed

subsection \<open>The serial counter\<close>

text \<open>
  C1. The counter of a new server is 1. In every state a server can reach the counter is
  at least 1, and \<^verbatim>\<open>_broadcastStatus\<close> and \<^verbatim>\<open>_handleStatusRequest\<close> send a packet
  exactly when the counter is at most 65535. The announcement sent and the response built
  then carry, in the StatusSerial option, the two bytes of the value the counter has before
  the call, which decode to that value, and the counter is left one higher. Both paths
  draw from one sequence: the serial options of all the packets sent, announcements and
  responses in the order of sending, are 1, 2, 3 and so on, without a gap or a repetition.
  (Above 65535 the call counts and throws and no packet is sent, so no packet carries
  anything else.)
\<close>

theorem C1_serial_counter:
  assumes "r = run f evs (CoapServer dev)"
  shows
  "serial (CoapServer dev) = 1 \<and>
   1 \<le> serial r \<and>
   (snd (broadcastStatus f r) = None \<longleftrightarrow> serial r \<le> 65535) \<and>
   (snd (snd (handleStatusRequest f req res r)) = None \<longleftrightarrow> serial r \<le> 65535) \<and>
   (serial r \<le> 65535 \<longrightarrow>
      (\<exists>m b. network (fst (broadcastStatus f r)) = network r @ [(now r, Announcement m b)] \<and>
         getOption (msg_options m) STATUS_SERIAL = Some [uint16BE (serial r)]) \<and>
      serial (fst (broadcastStatus f r)) = serial r + 1 \<and>
      network (fst (handleStatusRequest f req res r)) =
        network r @ [(now r, Response (fst (snd (handleStatusRequest f req res r))))] \<and>
      getOption (res_options (fst (snd (handleStatusRequest f req res r)))) STATUS_SERIAL =
        Some [uint16BE (serial r)] \<and>
      serial (fst (handleStatusRequest f req res r)) = serial r + 1 \<and>
      STATUS_SERIAL_toBinary (JNum (serial r)) = Inr (uint16BE (serial r)) \<and>
      STATUS_SERIAL_toString (uint16BE (serial r)) = Inr (serial r)) \<and>
   (65535 < serial r \<longrightarrow>
      network (fst (broadcastStatus f r)) = network r \<and>
      network (fst (handleStatusRequest f req res r)) = network r) \<and>
   length (serials r) = length (network r) \<and>
   serials r = map (\<lambda>k. Some [uint16BE (int k)]) [1..<min (nat (serial r)) 65536]"
proof -
  have inv: "serial_inv r" unfolding assms by (rule inv_reachable)
  then have one: "1 \<le> serial r" and range: "0 \<le> serial r" "serial r \<le> 2 ^ 53"
    and sent: "serials r = map (\<lambda>k. Some [uint16BE (int k)]) [1..<min (nat (serial r)) 65536]"
    by (simp_all add: serial_inv_def)
  have new: "serial (CoapServer dev) = 1" by (simp add: CoapServer_def)
  have thrown: "snd (broadcastStatus f r) = None \<longleftrightarrow> serial r \<le> 65535"
    by (simp add: thrown_broadcastStatus [OF range])
  have thrown': "snd (snd (handleStatusRequest f req res r)) = None \<longleftrightarrow> serial r \<le> 65535"
    by (simp add: handleStatusRequest_eq [OF range] Let_def)
  have low: "serial r \<le> 65535 \<longrightarrow>
      (\<exists>m b. network (fst (broadcastStatus f r)) = network r @ [(now r, Announcement m b)] \<and>
         getOption (msg_options m) STATUS_SERIAL = Some [uint16BE (serial r)]) \<and>
      serial (fst (broadcastStatus f r)) = serial r + 1 \<and>
      network (fst (handleStatusRequest f req res r)) =
        network r @ [(now r, Response (fst (snd (handleStatusRequest f req res r))))] \<and>
      getOption (res_options (fst (snd (handleStatusRequest f req res r)))) STATUS_SERIAL =
        Some [uint16BE (serial r)] \<and>
      serial (fst (handleStatusRequest f req res r)) = serial r + 1 \<and>
      STATUS_SERIAL_toBinary (JNum (serial r)) = Inr (uint16BE (serial r)) \<and>
      STATUS_SERIAL_toString (uint16BE (serial r)) = Inr (serial r)"
  proof
    assume le: "serial r \<le> 65535"
    then have "\<bar>serial r + 1\<bar> \<le> 2 ^ 53" using range by simp
    then have num: "Number_of_int (serial r + 1) = serial r + 1" by (rule Number_of_int_exact)
    have a: "\<exists>m b. network (fst (broadcastStatus f r)) = network r @ [(now r, Announcement m b)] \<and>
         getOption (msg_options m) STATUS_SERIAL = Some [uint16BE (serial r)]"
      using le by (simp add: network_broadcastStatus [OF range] getOption_announcement)
    have b: "serial (fst (broadcastStatus f r)) = serial r + 1" by (simp add: num)
    have c: "network (fst (handleStatusRequest f req res r)) =
        network r @ [(now r, Response (fst (snd (handleStatusRequest f req res r))))]"
      using le by (simp add: handleStatusRequest_eq [OF range] Let_def)
    have d: "getOption (res_options (fst (snd (handleStatusRequest f req res r)))) STATUS_SERIAL =
        Some [uint16BE (serial r)]"
      using le by (simp add: handleStatusRequest_eq [OF range] Let_def getOption_put_option)
    have e: "serial (fst (handleStatusRequest f req res r)) = serial r + 1"
      by (simp add: serial_handleStatusRequest [OF range] num)
    have g: "STATUS_SERIAL_toBinary (JNum (serial r)) = Inr (uint16BE (serial r))"
      using le range(1) by (simp add: STATUS_SERIAL_toBinary_in_range)
    have h: "STATUS_SERIAL_toString (uint16BE (serial r)) = Inr (serial r)"
      using le range(1) by (simp add: STATUS_SERIAL_toString_def readUInt16BE_bytes)
    from a b c d e g h show "(\<exists>m b. network (fst (broadcastStatus f r)) = network r @ [(now r, Announcement m b)] \<and>
         getOption (msg_options m) STATUS_SERIAL = Some [uint16BE (serial r)]) \<and>
      serial (fst (broadcastStatus f r)) = serial r + 1 \<and>
      network (fst (handleStatusRequest f req res r)) =
        network r @ [(now r, Response (fst (snd (handleStatusRequest f req res r))))] \<and>
      getOption (res_options (fst (snd (handleStatusRequest f req res r)))) STATUS_SERIAL =
        Some [uint16BE (serial r)] \<and>
      serial (fst (handleStatusRequest f req res r)) = serial r + 1 \<and>
      STATUS_SERIAL_toBinary (JNum (serial r)) = Inr (uint16BE (serial r)) \<and>
      STATUS_SERIAL_toString (uint16BE (serial r)) = Inr (serial r)"
      by (intro conjI)
  qed
  have high: "65535 < serial r \<longrightarrow>
      network (fst (broadcastStatus f r)) = network r \<and>
      network (fst (handleStatusRequest f req res r)) = network r"
    by (simp add: network_broadcastStatus [OF range] handleStatusRequest_eq [OF range] Let_def)
  have len: "length (serials r) = length (network r)" by (simp add: serials_def)
  show ?thesis
    by (intro conjI new one thrown thrown' low high len sent)
qed

theorem C1_serial_counter_witness:
  "serial (run (\<lambda>p. p) [Call_start, Listeners_settled None, Incoming (\<lparr>req_method = ''GET'', req_url = ''/cit/s''\<rparr>) \<lparr>res_options = [], res_ended = None\<rparr>] (CoapServer (\<lparr>dev_type = ''SHSW-1'', dev_id = ''B929CC'', coapStatusPayload = ''{}'', change_listeners = 0\<rparr>))) = 3 \<and>
   serials (run (\<lambda>p. p) [Call_start, Listeners_settled None, Incoming (\<lparr>req_method = ''GET'', req_url = ''/cit/s''\<rparr>) \<lparr>res_options = [], res_ended = None\<rparr>] (CoapServer (\<lparr>dev_type = ''SHSW-1'', dev_id = ''B929CC'', coapStatusPayload = ''{}'', change_listeners = 0\<rparr>))) =
     [Some [[0, 1]], Some [[0, 2]]] \<and>
   snd (broadcastStatus (\<lambda>p. p) (run (\<lambda>p. p) [Call_start, Listeners_settled None, Incoming (\<lparr>req_method = ''GET'', req_url = ''/cit/s''\<rparr>) \<lparr>res_options = [], res_ended = None\<rparr>] (CoapServer (\<lparr>dev_type = ''SHSW-1'', dev_id = ''B929CC'', coapStatusPayload = ''{}'', change_listeners = 0\<rparr>)))) = None \<and>
   STATUS_SERIAL_toBinary (JNum 3) = Inr [0, 3] \<and>
   STATUS_SERIAL_toString [0, 3] = Inr 3"
proof -
  let ?a = "run (\<lambda>p. p) [Call_start, Listeners_settled None] (CoapServer (\<lparr>dev_type = ''SHSW-1'', dev_id = ''B929CC'', coapStatusPayload = ''{}'', change_listeners = 0\<rparr>))"
  let ?r = "run (\<lambda>p. p) [Call_start, Listeners_settled None, Incoming (\<lparr>req_method = ''GET'', req_url = ''/cit/s''\<rparr>) \<lparr>res_options = [], res_ended = None\<rparr>] (CoapServer (\<lparr>dev_type = ''SHSW-1'', dev_id = ''B929CC'', coapStatusPayload = ''{}'', change_listeners = 0\<rparr>))"
  have "?r = run (\<lambda>p. p) (replicate 1 (Incoming (\<lparr>req_method = ''GET'', req_url = ''/cit/s''\<rparr>) \<lparr>res_options = [], res_ended = None\<rparr>)) ?a"
    by (simp add: run_def)
  moreover have "1 \<le> serial ?a" "serial ?a + int 1 \<le> 65536" by (simp_all add: started)
  ultimately have three: "serial ?r = 3"
    using run_requests_serial [of "\<lparr>req_method = ''GET'', req_url = ''/cit/s''\<rparr>" "?a" 1 "\<lambda>p. p" "\<lparr>res_options = [], res_ended = None\<rparr>"] by (simp add: started)
  have upt: "[Suc 0..<3] = [Suc 0, 2]" by (simp add: upt_rec numeral_3_eq_3)
  have one: "serial (CoapServer (\<lparr>dev_type = ''SHSW-1'', dev_id = ''B929CC'', coapStatusPayload = ''{}'', change_listeners = 0\<rparr>)) = 1" by (simp add: CoapServer_def)
  from C1_serial_counter [of ?r "\<lambda>p. p" "[Call_start, Listeners_settled None, Incoming (\<lparr>req_method = ''GET'', req_url = ''/cit/s''\<rparr>) \<lparr>res_options = [], res_ended = None\<rparr>]"
      "\<lparr>dev_type = ''SHSW-1'', dev_id = ''B929CC'', coapStatusPayload = ''{}'', change_listeners = 0\<rparr>" "\<lparr>req_method = ''GET'', req_url = ''/cit/s''\<rparr>" "\<lparr>res_options = [], res_ended = None\<rparr>"]
  show ?thesis by (simp add: three upt one uint16BE_def)
qed

subsection \<open>The status response\<close>

text \<open>
  C2, as stated: every GET request whose path is \<^verbatim>\<open>/cit/s\<close> gets the status response.
  Take a new server and let 65535 such requests come in: the counter is 65536. For the
  next one, \<^verbatim>\<open>setOption\<close> throws a range error on the serial, \<^verbatim>\<open>_requestHandler\<close>
  throws it again, and \<^verbatim>\<open>res.end\<close> is not reached: the response has no serial option
  and no body, and nothing is sent. And a GET request for the path \<^verbatim>\<open>/cit/s\<close> that has
  a query has a url other than \<^verbatim>\<open>/cit/s\<close>: it gets no response either.
\<close>

theorem C2_status_response_counterexample:
  "serial (run id (replicate 65535 (Incoming (\<lparr>req_method = ''GET'', req_url = ''/cit/s''\<rparr>) \<lparr>res_options = [], res_ended = None\<rparr>)) (CoapServer (\<lparr>dev_type = ''SHSW-1'', dev_id = ''B929CC'', coapStatusPayload = ''{}'', change_listeners = 0\<rparr>))) = 65536 \<and>
   snd (snd (requestHandler id (\<lparr>req_method = ''GET'', req_url = ''/cit/s''\<rparr>) \<lparr>res_options = [], res_ended = None\<rparr> (run id (replicate 65535 (Incoming (\<lparr>req_method = ''GET'', req_url = ''/cit/s''\<rparr>) \<lparr>res_options = [], res_ended = None\<rparr>)) (CoapServer (\<lparr>dev_type = ''SHSW-1'', dev_id = ''B929CC'', coapStatusPayload = ''{}'', change_listeners = 0\<rparr>))))) =
     Some ERR_OUT_OF_RANGE \<and>
   res_ended (fst (snd (requestHandler id (\<lparr>req_method = ''GET'', req_url = ''/cit/s''\<rparr>) \<lparr>res_options = [], res_ended = None\<rparr>
     (run id (replicate 65535 (Incoming (\<lparr>req_method = ''GET'', req_url = ''/cit/s''\<rparr>) \<lparr>res_options = [], res_ended = None\<rparr>)) (CoapServer (\<lparr>dev_type = ''SHSW-1'', dev_id = ''B929CC'', coapStatusPayload = ''{}'', change_listeners = 0\<rparr>)))))) = None \<and>
   getOption (res_options (fst (snd (requestHandler id (\<lparr>req_method = ''GET'', req_url = ''/cit/s''\<rparr>) \<lparr>res_options = [], res_ended = None\<rparr>
     (run id (replicate 65535 (Incoming (\<lparr>req_method = ''GET'', req_url = ''/cit/s''\<rparr>) \<lparr>res_options = [], res_ended = None\<rparr>)) (CoapServer (\<lparr>dev_type = ''SHSW-1'', dev_id = ''B929CC'', coapStatusPayload = ''{}'', change_listeners = 0\<rparr>))))))) STATUS_SERIAL = None \<and>
   network (fst (requestHandler id (\<lparr>req_method = ''GET'', req_url = ''/cit/s''\<rparr>) \<lparr>res_options = [], res_ended = None\<rparr> (run id (replicate 65535 (Incoming (\<lparr>req_method = ''GET'', req_url = ''/cit/s''\<rparr>) \<lparr>res_options = [], res_ended = None\<rparr>)) (CoapServer (\<lparr>dev_type = ''SHSW-1'', dev_id = ''B929CC'', coapStatusPayload = ''{}'', change_listeners = 0\<rparr>))))) =
     network (run id (replicate 65535 (Incoming (\<lparr>req_method = ''GET'', req_url = ''/cit/s''\<rparr>) \<lparr>res_options = [], res_ended = None\<rparr>)) (CoapServer (\<lparr>dev_type = ''SHSW-1'', dev_id = ''B929CC'', coapStatusPayload = ''{}'', change_listeners = 0\<rparr>))) \<and>
   url_path ''/cit/s?x=1'' = ''/cit/s'' \<and>
   res_ended (fst (snd (requestHandler id \<lparr>req_method = ''GET'', req_url = ''/cit/s?x=1''\<rparr> \<lparr>res_options = [], res_ended = None\<rparr> (CoapServer (\<lparr>dev_type = ''SHSW-1'', dev_id = ''B929CC'', coapStatusPayload = ''{}'', change_listeners = 0\<rparr>))))) = None \<and>
   network (fst (requestHandler id \<lparr>req_method = ''GET'', req_url = ''/cit/s?x=1''\<rparr> \<lparr>res_options = [], res_ended = None\<rparr> (CoapServer (\<lparr>dev_type = ''SHSW-1'', dev_id = ''B929CC'', coapStatusPayload = ''{}'', change_listeners = 0\<rparr>)))) = []"
proof -
  let ?r = "run id (replicate 65535 (Incoming (\<lparr>req_method = ''GET'', req_url = ''/cit/s''\<rparr>) \<lparr>res_options = [], res_ended = None\<rparr>)) (CoapServer (\<lparr>dev_type = ''SHSW-1'', dev_id = ''B929CC'', coapStatusPayload = ''{}'', change_listeners = 0\<rparr>))"
  have "1 \<le> serial (CoapServer (\<lparr>dev_type = ''SHSW-1'', dev_id = ''B929CC'', coapStatusPayload = ''{}'', change_listeners = 0\<rparr>))" "serial (CoapServer (\<lparr>dev_type = ''SHSW-1'', dev_id = ''B929CC'', coapStatusPayload = ''{}'', change_listeners = 0\<rparr>)) + int 65535 \<le> 65536"
    by (simp_all add: CoapServer_def)
  from run_requests_serial [of "\<lparr>req_method = ''GET'', req_url = ''/cit/s''\<rparr>" "CoapServer (\<lparr>dev_type = ''SHSW-1'', dev_id = ''B929CC'', coapStatusPayload = ''{}'', change_listeners = 0\<rparr>)" 65535 id "\<lparr>res_options = [], res_ended = None\<rparr>", OF _ _ this]
  have ser: "serial ?r = 65536" by (simp add: CoapServer_def)
  then have range: "0 \<le> serial ?r" "serial ?r \<le> 2 ^ 53" by simp_all
  have st: "req_method (\<lparr>req_method = ''GET'', req_url = ''/cit/s''\<rparr>) = ''GET''" "req_url (\<lparr>req_method = ''GET'', req_url = ''/cit/s''\<rparr>) = ''/cit/s''" by simp_all
  have none: "getOption [] STATUS_SERIAL = None" by (simp add: getOption_def)
  have a: "snd (snd (requestHandler id (\<lparr>req_method = ''GET'', req_url = ''/cit/s''\<rparr>) \<lparr>res_options = [], res_ended = None\<rparr> ?r)) = Some ERR_OUT_OF_RANGE"
    "res_ended (fst (snd (requestHandler id (\<lparr>req_method = ''GET'', req_url = ''/cit/s''\<rparr>) \<lparr>res_options = [], res_ended = None\<rparr> ?r))) = None"
    "getOption (res_options (fst (snd (requestHandler id (\<lparr>req_method = ''GET'', req_url = ''/cit/s''\<rparr>) \<lparr>res_options = [], res_ended = None\<rparr> ?r)))) STATUS_SERIAL = None"
    "network (fst (requestHandler id (\<lparr>req_method = ''GET'', req_url = ''/cit/s''\<rparr>) \<lparr>res_options = [], res_ended = None\<rparr> ?r)) = network ?r"
    by (simp_all add: requestHandler_status [OF st range] ser Let_def getOption_put_option
        option_names none)
  have b: "url_path ''/cit/s?x=1'' = ''/cit/s''" by (simp add: url_path_def)
  have c: "res_ended (fst (snd (requestHandler id \<lparr>req_method = ''GET'', req_url = ''/cit/s?x=1''\<rparr> \<lparr>res_options = [], res_ended = None\<rparr> (CoapServer (\<lparr>dev_type = ''SHSW-1'', dev_id = ''B929CC'', coapStatusPayload = ''{}'', change_listeners = 0\<rparr>))))) = None"
    "network (fst (requestHandler id \<lparr>req_method = ''GET'', req_url = ''/cit/s?x=1''\<rparr> \<lparr>res_options = [], res_ended = None\<rparr> (CoapServer (\<lparr>dev_type = ''SHSW-1'', dev_id = ''B929CC'', coapStatusPayload = ''{}'', change_listeners = 0\<rparr>)))) = []"
    by (simp_all add: requestHandler_def CoapServer_def)
  from ser a b c show ?thesis by (intro conjI)
qed

text \<open>
  C2, amended. For every GET request whose url is exactly \<^verbatim>\<open>/cit/s\<close>, in every state
  a server can reach with the counter at most 65535 and whatever response object the
  transport hands over, nothing is thrown and the response that comes back has the Uri-Path
  option with the two segments \<^verbatim>\<open>cit\<close> and \<^verbatim>\<open>s\<close> of the status path, the device
  identifier option, the validity option with the bytes of 38400, the serial option with
  the bytes of the counter, and as body the serialization of the payload the device has
  at that moment; and it is the packet sent. With the counter above 65535 the request
  throws a range error, which is written to the error log, the response is not ended and
  nothing is sent.
\<close>

theorem C2_status_response:
  assumes "r = run f evs (CoapServer dev)" "req_method req = ''GET''" "req_url req = ''/cit/s''"
  shows
  "(serial r \<le> 65535 \<longrightarrow>
      snd (snd (requestHandler f req res r)) = None \<and>
      getOption (res_options (fst (snd (requestHandler f req res r)))) ''Uri-Path'' =
        Some [Buffer_from ''cit'', Buffer_from ''s''] \<and>
      getOption (res_options (fst (snd (requestHandler f req res r)))) GLOBAL_DEVID =
        Some [Buffer_from (getDeviceIdentifier (device r))] \<and>
      getOption (res_options (fst (snd (requestHandler f req res r)))) STATUS_VALIDITY =
        Some [uint16BE 38400] \<and>
      STATUS_VALIDITY_toString (uint16BE 38400) = Inr 38400 \<and>
      getOption (res_options (fst (snd (requestHandler f req res r)))) STATUS_SERIAL =
        Some [uint16BE (serial r)] \<and>
      STATUS_SERIAL_toString (uint16BE (serial r)) = Inr (serial r) \<and>
      res_ended (fst (snd (requestHandler f req res r))) = Some (f (coapStatusPayload (device r))) \<and>
      network (fst (requestHandler f req res r)) =
        network r @ [(now r, Response (fst (snd (requestHandler f req res r))))]) \<and>
   (65535 < serial r \<longrightarrow>
      snd (snd (requestHandler f req res r)) = Some ERR_OUT_OF_RANGE \<and>
      res_ended (fst (snd (requestHandler f req res r))) = res_ended res \<and>
      network (fst (requestHandler f req res r)) = network r \<and>
      console_error (fst (requestHandler f req res r)) = console_error r @ [ERR_OUT_OF_RANGE])"
proof -
  have inv: "serial_inv r" unfolding assms(1) by (rule inv_reachable)
  then have range: "0 \<le> serial r" "serial r \<le> 2 ^ 53" by (simp_all add: serial_inv_def)
  note eq = requestHandler_status [OF assms(2,3) range]
  have v: "STATUS_VALIDITY_toString (uint16BE 38400) = Inr 38400"
    by (simp add: STATUS_VALIDITY_toString_def readUInt16BE_bytes)
  have low: "serial r \<le> 65535 \<longrightarrow>
      snd (snd (requestHandler f req res r)) = None \<and>
      getOption (res_options (fst (snd (requestHandler f req res r)))) ''Uri-Path'' =
        Some [Buffer_from ''cit'', Buffer_from ''s''] \<and>
      getOption (res_options (fst (snd (requestHandler f req res r)))) GLOBAL_DEVID =
        Some [Buffer_from (getDeviceIdentifier (device r))] \<and>
      getOption (res_options (fst (snd (requestHandler f req res r)))) STATUS_VALIDITY =
        Some [uint16BE 38400] \<and>
      STATUS_VALIDITY_toString (uint16BE 38400) = Inr 38400 \<and>
      getOption (res_options (fst (snd (requestHandler f req res r)))) STATUS_SERIAL =
        Some [uint16BE (serial r)] \<and>
      STATUS_SERIAL_toString (uint16BE (serial r)) = Inr (serial r) \<and>
      res_ended (fst (snd (requestHandler f req res r))) = Some (f (coapStatusPayload (device r))) \<and>
      network (fst (requestHandler f req res r)) =
        network r @ [(now r, Response (fst (snd (requestHandler f req res r))))]"
  proof
    assume le: "serial r \<le> 65535"
    have s: "STATUS_SERIAL_toString (uint16BE (serial r)) = Inr (serial r)"
      using le range(1) by (simp add: STATUS_SERIAL_toString_def readUInt16BE_bytes)
    from le v s show "snd (snd (requestHandler f req res r)) = None \<and>
      getOption (res_options (fst (snd (requestHandler f req res r)))) ''Uri-Path'' =
        Some [Buffer_from ''cit'', Buffer_from ''s''] \<and>
      getOption (res_options (fst (snd (requestHandler f req res r)))) GLOBAL_DEVID =
        Some [Buffer_from (getDeviceIdentifier (device r))] \<and>
      getOption (res_options (fst (snd (requestHandler f req res r)))) STATUS_VALIDITY =
        Some [uint16BE 38400] \<and>
      STATUS_VALIDITY_toString (uint16BE 38400) = Inr 38400 \<and>
      getOption (res_options (fst (snd (requestHandler f req res r)))) STATUS_SERIAL =
        Some [uint16BE (serial r)] \<and>
      STATUS_SERIAL_toString (uint16BE (serial r)) = Inr (serial r) \<and>
      res_ended (fst (snd (requestHandler f req res r))) = Some (f (coapStatusPayload (device r))) \<and>
      network (fst (requestHandler f req res r)) =
        network r @ [(now r, Response (fst (snd (requestHandler f req res r))))]"
      by (simp add: eq Let_def getOption_put_option option_names)
  qed
  have high: "65535 < serial r \<longrightarrow>
      snd (snd (requestHandler f req res r)) = Some ERR_OUT_OF_RANGE \<and>
      res_ended (fst (snd (requestHandler f req res r))) = res_ended res \<and>
      network (fst (requestHandler f req res r)) = network r \<and>
      console_error (fst (requestHandler f req res r)) = console_error r @ [ERR_OUT_OF_RANGE]"
    by (simp add: eq Let_def)
  show ?thesis by (intro conjI low high)
qed

theorem C2_status_response_witness:
  "snd (snd (requestHandler (\<lambda>p. p) (\<lparr>req_method = ''GET'', req_url = ''/cit/s''\<rparr>) \<lparr>res_options = [], res_ended = None\<rparr> (CoapServer (\<lparr>dev_type = ''SHSW-1'', dev_id = ''B929CC'', coapStatusPayload = ''{}'', change_listeners = 0\<rparr>)))) = None \<and>
   getOption (res_options (fst (snd (requestHandler (\<lambda>p. p) (\<lparr>req_method = ''GET'', req_url = ''/cit/s''\<rparr>) \<lparr>res_options = [], res_ended = None\<rparr> (CoapServer (\<lparr>dev_type = ''SHSW-1'', dev_id = ''B929CC'', coapStatusPayload = ''{}'', change_listeners = 0\<rparr>)))))) ''Uri-Path'' =
     Some [[99, 105, 116], [115]] \<and>
   getOption (res_options (fst (snd (requestHandler (\<lambda>p. p) (\<lparr>req_method = ''GET'', req_url = ''/cit/s''\<rparr>) \<lparr>res_options = [], res_ended = None\<rparr> (CoapServer (\<lparr>dev_type = ''SHSW-1'', dev_id = ''B929CC'', coapStatusPayload = ''{}'', change_listeners = 0\<rparr>)))))) GLOBAL_DEVID =
     Some [Buffer_from ''SHSW-1#B929CC#1''] \<and>
   getOption (res_options (fst (snd (requestHandler (\<lambda>p. p) (\<lparr>req_method = ''GET'', req_url = ''/cit/s''\<rparr>) \<lparr>res_options = [], res_ended = None\<rparr> (CoapServer (\<lparr>dev_type = ''SHSW-1'', dev_id = ''B929CC'', coapStatusPayload = ''{}'', change_listeners = 0\<rparr>)))))) STATUS_VALIDITY =
     Some [[150, 0]] \<and>
   getOption (res_options (fst (snd (requestHandler (\<lambda>p. p) (\<lparr>req_method = ''GET'', req_url = ''/cit/s''\<rparr>) \<lparr>res_options = [], res_ended = None\<rparr> (CoapServer (\<lparr>dev_type = ''SHSW-1'', dev_id = ''B929CC'', coapStatusPayload = ''{}'', change_listeners = 0\<rparr>)))))) STATUS_SERIAL =
     Some [[0, 1]] \<and>
   res_ended (fst (snd (requestHandler (\<lambda>p. p) (\<lparr>req_method = ''GET'', req_url = ''/cit/s''\<rparr>) \<lparr>res_options = [], res_ended = None\<rparr> (CoapServer (\<lparr>dev_type = ''SHSW-1'', dev_id = ''B929CC'', coapStatusPayload = ''{}'', change_listeners = 0\<rparr>))))) = Some ''{}''"
proof -
  have bytes: "Buffer_from ''cit'' = [99, 105, 116]" "Buffer_from ''s'' = [115]"
    by (simp_all add: Buffer_from_def utf8_def)
  have low: "(38400 :: byte) = 0" by simp
  have s: "serial (CoapServer (\<lparr>dev_type = ''SHSW-1'', dev_id = ''B929CC'', coapStatusPayload = ''{}'', change_listeners = 0\<rparr>)) = 1" "device (CoapServer (\<lparr>dev_type = ''SHSW-1'', dev_id = ''B929CC'', coapStatusPayload = ''{}'', change_listeners = 0\<rparr>)) = \<lparr>dev_type = ''SHSW-1'', dev_id = ''B929CC'', coapStatusPayload = ''{}'', change_listeners = 0\<rparr>"
    by (simp_all add: CoapServer_def)
  from C2_status_response [of "CoapServer (\<lparr>dev_type = ''SHSW-1'', dev_id = ''B929CC'', coapStatusPayload = ''{}'', change_listeners = 0\<rparr>)" "\<lambda>p. p" "[]" "\<lparr>dev_type = ''SHSW-1'', dev_id = ''B929CC'', coapStatusPayload = ''{}'', change_listeners = 0\<rparr>" "\<lparr>req_method = ''GET'', req_url = ''/cit/s''\<rparr>" "\<lparr>res_options = [], res_ended = None\<rparr>"]
  show ?thesis by (simp add: run_Nil s bytes uint16BE_def low getDeviceIdentifier_def)
qed

subsection \<open>The request handler\<close>

text \<open>
  C5, as stated: the responder is called if and only if the method is GET and the path
  equals \<^verbatim>\<open>/cit/s\<close>. A GET request for the path \<^verbatim>\<open>/cit/s\<close> with the query
  \<^verbatim>\<open>x=1\<close> has the url \<^verbatim>\<open>/cit/s?x=1\<close>; \<^verbatim>\<open>_requestHandler\<close> compares the url, so
  the responder is not called: server and response are left as they were.
\<close>

theorem C5_request_routing_counterexample:
  "url_path (req_url \<lparr>req_method = ''GET'', req_url = ''/cit/s?x=1''\<rparr>) = ''/cit/s'' \<and>
   req_method \<lparr>req_method = ''GET'', req_url = ''/cit/s?x=1''\<rparr> = ''GET'' \<and>
   requestHandler id \<lparr>req_method = ''GET'', req_url = ''/cit/s?x=1''\<rparr> \<lparr>res_options = [], res_ended = None\<rparr> (CoapServer (\<lparr>dev_type = ''SHSW-1'', dev_id = ''B929CC'', coapStatusPayload = ''{}'', change_listeners = 0\<rparr>)) = (CoapServer (\<lparr>dev_type = ''SHSW-1'', dev_id = ''B929CC'', coapStatusPayload = ''{}'', change_listeners = 0\<rparr>), \<lparr>res_options = [], res_ended = None\<rparr>, None)"
  by (simp add: url_path_def requestHandler_def)

text \<open>
  C5, amended. For every request, \<^verbatim>\<open>_requestHandler\<close> calls \<^verbatim>\<open>_handleStatusRequest\<close>
  if and only if the method is \<^verbatim>\<open>GET\<close> and the url, which is the path and the query,
  is exactly \<^verbatim>\<open>/cit/s\<close>: exactly then the line \<^verbatim>\<open>GET /cit/s\<close> is logged, and what
  the responder throws is written to the error log and thrown again. For every other
  request the server and the response object are left as they were, so that no response
  is produced, and nothing is thrown.
\<close>

theorem C5_request_routing:
  "(req_method req = ''GET'' \<and> req_url req = ''/cit/s'' \<longrightarrow>
      requestHandler f req res s =
        (case handleStatusRequest f req res s of
           (s1, res1, None) \<Rightarrow> (s1, res1, None)
         | (s1, res1, Some e) \<Rightarrow> (s1\<lparr>console_error := console_error s1 @ [e]\<rparr>, res1, Some e))) \<and>
   (\<not> (req_method req = ''GET'' \<and> req_url req = ''/cit/s'') \<longrightarrow>
      requestHandler f req res s = (s, res, None)) \<and>
   (console (fst (requestHandler f req res s)) = console s @ [''GET /cit/s''] \<longleftrightarrow>
      req_method req = ''GET'' \<and> req_url req = ''/cit/s'') \<and>
   (console (fst (requestHandler f req res s)) \<noteq> console s \<longleftrightarrow>
      req_method req = ''GET'' \<and> req_url req = ''/cit/s'') \<and>
   (network (fst (requestHandler f req res s)) \<noteq> network s \<longrightarrow>
      req_method req = ''GET'' \<and> req_url req = ''/cit/s'') \<and>
   (snd (snd (requestHandler f req res s)) \<noteq> None \<longrightarrow>
      req_method req = ''GET'' \<and> req_url req = ''/cit/s'')"
proof -
  have a: "req_method req = ''GET'' \<and> req_url req = ''/cit/s'' \<longrightarrow>
      requestHandler f req res s =
        (case handleStatusRequest f req res s of
           (s1, res1, None) \<Rightarrow> (s1, res1, None)
         | (s1, res1, Some e) \<Rightarrow> (s1\<lparr>console_error := console_error s1 @ [e]\<rparr>, res1, Some e))"
    by (simp add: requestHandler_def)
  have b: "\<not> (req_method req = ''GET'' \<and> req_url req = ''/cit/s'') \<longrightarrow>
      requestHandler f req res s = (s, res, None)"
    by (simp add: requestHandler_def)
  have c: "console (fst (requestHandler f req res s)) =
      (if req_method req = ''GET'' \<and> req_url req = ''/cit/s'' then console s @ [''GET /cit/s'']
       else console s)"
    by (simp add: requestHandler_fst split: option.splits)
  have d: "console (fst (requestHandler f req res s)) = console s @ [''GET /cit/s''] \<longleftrightarrow>
      req_method req = ''GET'' \<and> req_url req = ''/cit/s''"
    by (simp add: c)
  have e: "console (fst (requestHandler f req res s)) \<noteq> console s \<longleftrightarrow>
      req_method req = ''GET'' \<and> req_url req = ''/cit/s''"
    by (simp add: c)
  have g: "network (fst (requestHandler f req res s)) \<noteq> network s \<longrightarrow>
      req_method req = ''GET'' \<and> req_url req = ''/cit/s''"
    using b by auto
  have h: "snd (snd (requestHandler f req res s)) \<noteq> None \<longrightarrow>
      req_method req = ''GET'' \<and> req_url req = ''/cit/s''"
    using b by auto
  show ?thesis by (intro conjI a b d e g h)
qed

theorem C5_request_routing_witness:
  "requestHandler (\<lambda>p. p) \<lparr>req_method = ''POST'', req_url = ''/cit/s''\<rparr> \<lparr>res_options = [], res_ended = None\<rparr> (CoapServer (\<lparr>dev_type = ''SHSW-1'', dev_id = ''B929CC'', coapStatusPayload = ''{}'', change_listeners = 0\<rparr>)) =
     (CoapServer (\<lparr>dev_type = ''SHSW-1'', dev_id = ''B929CC'', coapStatusPayload = ''{}'', change_listeners = 0\<rparr>), \<lparr>res_options = [], res_ended = None\<rparr>, None) \<and>
   requestHandler (\<lambda>p. p) \<lparr>req_method = ''GET'', req_url = ''/cit/x''\<rparr> \<lparr>res_options = [], res_ended = None\<rparr> (CoapServer (\<lparr>dev_type = ''SHSW-1'', dev_id = ''B929CC'', coapStatusPayload = ''{}'', change_listeners = 0\<rparr>)) =
     (CoapServer (\<lparr>dev_type = ''SHSW-1'', dev_id = ''B929CC'', coapStatusPayload = ''{}'', change_listeners = 0\<rparr>), \<lparr>res_options = [], res_ended = None\<rparr>, None) \<and>
   console (fst (requestHandler (\<lambda>p. p) (\<lparr>req_method = ''GET'', req_url = ''/cit/s''\<rparr>) \<lparr>res_options = [], res_ended = None\<rparr> (CoapServer (\<lparr>dev_type = ''SHSW-1'', dev_id = ''B929CC'', coapStatusPayload = ''{}'', change_listeners = 0\<rparr>)))) = [''GET /cit/s'']"
proof -
  have c: "console (CoapServer (\<lparr>dev_type = ''SHSW-1'', dev_id = ''B929CC'', coapStatusPayload = ''{}'', change_listeners = 0\<rparr>)) = []" by (simp add: CoapServer_def)
  note post = C5_request_routing [of "\<lparr>req_method = ''POST'', req_url = ''/cit/s''\<rparr>" "\<lambda>p. p" "\<lparr>res_options = [], res_ended = None\<rparr>" "CoapServer (\<lparr>dev_type = ''SHSW-1'', dev_id = ''B929CC'', coapStatusPayload = ''{}'', change_listeners = 0\<rparr>)",
      THEN conjunct2, THEN conjunct1]
  note other = C5_request_routing [of "\<lparr>req_method = ''GET'', req_url = ''/cit/x''\<rparr>" "\<lambda>p. p" "\<lparr>res_options = [], res_ended = None\<rparr>" "CoapServer (\<lparr>dev_type = ''SHSW-1'', dev_id = ''B929CC'', coapStatusPayload = ''{}'', change_listeners = 0\<rparr>)",
      THEN conjunct2, THEN conjunct1]
  note status = C5_request_routing [of "\<lparr>req_method = ''GET'', req_url = ''/cit/s''\<rparr>" "\<lambda>p. p" "\<lparr>res_options = [], res_ended = None\<rparr>" "CoapServer (\<lparr>dev_type = ''SHSW-1'', dev_id = ''B929CC'', coapStatusPayload = ''{}'', change_listeners = 0\<rparr>)",
      THEN conjunct2, THEN conjunct2, THEN conjunct1]
  from post have 1: "requestHandler (\<lambda>p. p) \<lparr>req_method = ''POST'', req_url = ''/cit/s''\<rparr> \<lparr>res_options = [], res_ended = None\<rparr> (CoapServer (\<lparr>dev_type = ''SHSW-1'', dev_id = ''B929CC'', coapStatusPayload = ''{}'', change_listeners = 0\<rparr>)) =
     (CoapServer (\<lparr>dev_type = ''SHSW-1'', dev_id = ''B929CC'', coapStatusPayload = ''{}'', change_listeners = 0\<rparr>), \<lparr>res_options = [], res_ended = None\<rparr>, None)" by simp
  from other have 2: "requestHandler (\<lambda>p. p) \<lparr>req_method = ''GET'', req_url = ''/cit/x''\<rparr> \<lparr>res_options = [], res_ended = None\<rparr> (CoapServer (\<lparr>dev_type = ''SHSW-1'', dev_id = ''B929CC'', coapStatusPayload = ''{}'', change_listeners = 0\<rparr>)) =
     (CoapServer (\<lparr>dev_type = ''SHSW-1'', dev_id = ''B929CC'', coapStatusPayload = ''{}'', change_listeners = 0\<rparr>), \<lparr>res_options = [], res_ended = None\<rparr>, None)" by simp
  from status have 3: "console (fst (requestHandler (\<lambda>p. p) (\<lparr>req_method = ''GET'', req_url = ''/cit/s''\<rparr>) \<lparr>res_options = [], res_ended = None\<rparr> (CoapServer (\<lparr>dev_type = ''SHSW-1'', dev_id = ''B929CC'', coapStatusPayload = ''{}'', change_listeners = 0\<rparr>)))) = [''GET /cit/s'']"
    by (simp add: c)
  from 1 2 3 show ?thesis by (intro conjI)
qed

subsection \<open>Stop and the serial counter\<close>

text \<open>
  C10. \<^verbatim>\<open>stop()\<close> leaves the serial counter, the packets sent, the log and the device
  (its subscriptions apart) as they are. Starting the same server again continues the
  sequence: the counter after the new start is the successor of the value it had before
  \<^verbatim>\<open>stop()\<close>, never 1 again, and while that value is at most 65535 the announcement of
  the new start carries it.
\<close>

theorem C10_stop_keeps_serial:
  "serial (stop s) = serial s \<and>
   network (stop s) = network s \<and>
   serials (stop s) = serials s \<and>
   console (stop s) = console s \<and>
   device (stop s) = (device s)\<lparr>change_listeners := 0\<rparr> \<and>
   serial (fst (start f Listening Listening (stop s))) = Number_of_int (serial s + 1) \<and>
   (1 \<le> serial s \<and> serial s \<le> 2 ^ 53 \<longrightarrow>
      serial s \<le> serial (fst (start f Listening Listening (stop s))) \<and>
      serial (fst (start f Listening Listening (stop s))) \<noteq> 1) \<and>
   (1 \<le> serial s \<and> serial s \<le> 65535 \<longrightarrow>
      snd (start f Listening Listening (stop s)) = None \<and>
      serial (fst (start f Listening Listening (stop s))) = serial s + 1 \<and>
      serials (fst (start f Listening Listening (stop s))) = serials s @ [Some [uint16BE (serial s)]])"
proof -
  let ?x = "fst (start_sync (stop s))"
  have st: "start f Listening Listening (stop s) = start_settle f None ?x"
    by (rule start_listening)
  have sx: "serial ?x = serial s" "serials ?x = serials s"
    by (simp_all add: serials_def)
  have a: "serial (fst (start f Listening Listening (stop s))) = Number_of_int (serial s + 1)"
    by (simp add: st start_settle_fst split: option.splits)
  have b: "1 \<le> serial s \<and> serial s \<le> 2 ^ 53 \<longrightarrow>
      serial s \<le> serial (fst (start f Listening Listening (stop s))) \<and>
      serial (fst (start f Listening Listening (stop s))) \<noteq> 1"
  proof
    assume r: "1 \<le> serial s \<and> serial s \<le> 2 ^ 53"
    then have "Number_of_int (serial s + 1) = (if serial s < 2 ^ 53 then serial s + 1 else serial s)"
      by (simp add: Number_of_int_succ)
    with r show "serial s \<le> serial (fst (start f Listening Listening (stop s))) \<and>
      serial (fst (start f Listening Listening (stop s))) \<noteq> 1"
      unfolding a by (simp split: if_splits)
  qed
  have c: "1 \<le> serial s \<and> serial s \<le> 65535 \<longrightarrow>
      snd (start f Listening Listening (stop s)) = None \<and>
      serial (fst (start f Listening Listening (stop s))) = serial s + 1 \<and>
      serials (fst (start f Listening Listening (stop s))) = serials s @ [Some [uint16BE (serial s)]]"
  proof
    assume r: "1 \<le> serial s \<and> serial s \<le> 65535"
    then have range: "0 \<le> serial ?x" "serial ?x \<le> 65535" "serial ?x \<le> 2 ^ 53"
      by (simp_all add: sx)
    have sends: "start f Listening Listening (stop s) = (fst (broadcastStatus f ?x), None)"
      unfolding st using range(1,2) by (rule start_settle_sends)
    have "\<bar>serial s + 1\<bar> \<le> 2 ^ 53" using r by simp
    then have num: "Number_of_int (serial s + 1) = serial s + 1" by (rule Number_of_int_exact)
    have "serials (fst (broadcastStatus f ?x)) = serials ?x @ [Some [uint16BE (serial ?x)]]"
      using range(2) by (simp add: serials_broadcastStatus [OF range(1,3)])
    then show "snd (start f Listening Listening (stop s)) = None \<and>
      serial (fst (start f Listening Listening (stop s))) = serial s + 1 \<and>
      serials (fst (start f Listening Listening (stop s))) = serials s @ [Some [uint16BE (serial s)]]"
      by (simp add: sends num sx)
  qed
  have d: "serial (stop s) = serial s" "network (stop s) = network s" "serials (stop s) = serials s"
    "console (stop s) = console s" "device (stop s) = (device s)\<lparr>change_listeners := 0\<rparr>"
    by (simp_all add: serials_def)
  show ?thesis by (intro conjI d a b c)
qed

theorem C10_stop_keeps_serial_witness:
  "serial (stop (run (\<lambda>p. p) [Call_start, Listeners_settled None] (CoapServer (\<lparr>dev_type = ''SHSW-1'', dev_id = ''B929CC'', coapStatusPayload = ''{}'', change_listeners = 0\<rparr>)))) = 2 \<and>
   serial (fst (start (\<lambda>p. p) Listening Listening
     (stop (run (\<lambda>p. p) [Call_start, Listeners_settled None] (CoapServer (\<lparr>dev_type = ''SHSW-1'', dev_id = ''B929CC'', coapStatusPayload = ''{}'', change_listeners = 0\<rparr>)))))) = 3 \<and>
   serials (fst (start (\<lambda>p. p) Listening Listening
     (stop (run (\<lambda>p. p) [Call_start, Listeners_settled None] (CoapServer (\<lparr>dev_type = ''SHSW-1'', dev_id = ''B929CC'', coapStatusPayload = ''{}'', change_listeners = 0\<rparr>)))))) =
     [Some [[0, 1]], Some [[0, 2]]]"
proof -
  let ?a = "run (\<lambda>p. p) [Call_start, Listeners_settled None] (CoapServer (\<lparr>dev_type = ''SHSW-1'', dev_id = ''B929CC'', coapStatusPayload = ''{}'', change_listeners = 0\<rparr>))"
  have "serial_inv ?a" by (rule inv_reachable)
  then have "serials ?a = map (\<lambda>k. Some [uint16BE (int k)]) [1..<min (nat (serial ?a)) 65536]"
    by (simp add: serial_inv_def)
  moreover have "[Suc 0..<2] = [Suc 0]" by (simp add: upt_rec numeral_2_eq_2)
  ultimately have sa: "serials ?a = [Some [[0, 1]]]" by (simp add: started uint16BE_def)
  from C10_stop_keeps_serial [of ?a "\<lambda>p. p"] sa
  show ?thesis by (simp add: started uint16BE_def)
qed

subsection \<open>The re-broadcast timer\<close>

text \<open>
  C3, as stated: a change at 10 s followed by silence yields the next announcement at
  40 s. Take a server that is started and has answered 65534 requests, so that its
  counter is 65536, all at time 0. The device changes at 10 s: the change handler re-arms
  the timer for 40 s and throws in \<^verbatim>\<open>coap.request\<close>. At 40 s the timer fires, is armed
  again for 70 s, and its callback throws in the same place. No announcement is sent at
  40 s: all the 65535 packets of this server were sent at time 0.
\<close>

theorem C3_single_timer_cadence_counterexample:
  "serial (run id ([Call_start, Listeners_settled None] @ replicate 65534 (Incoming (\<lparr>req_method = ''GET'', req_url = ''/cit/s''\<rparr>) \<lparr>res_options = [], res_ended = None\<rparr>))
      (CoapServer (\<lparr>dev_type = ''SHSW-1'', dev_id = ''B929CC'', coapStatusPayload = ''{}'', change_listeners = 0\<rparr>))) = 65536 \<and>
   map fst (network (run id
      ([Call_start, Listeners_settled None] @ replicate 65534 (Incoming (\<lparr>req_method = ''GET'', req_url = ''/cit/s''\<rparr>) \<lparr>res_options = [], res_ended = None\<rparr>) @
       [Clock 10000, Device_change ''{}'', Clock 40000])
      (CoapServer (\<lparr>dev_type = ''SHSW-1'', dev_id = ''B929CC'', coapStatusPayload = ''{}'', change_listeners = 0\<rparr>)))) = replicate 65535 0 \<and>
   timers (run id
      ([Call_start, Listeners_settled None] @ replicate 65534 (Incoming (\<lparr>req_method = ''GET'', req_url = ''/cit/s''\<rparr>) \<lparr>res_options = [], res_ended = None\<rparr>) @
       [Clock 10000, Device_change ''{}'', Clock 40000])
      (CoapServer (\<lparr>dev_type = ''SHSW-1'', dev_id = ''B929CC'', coapStatusPayload = ''{}'', change_listeners = 0\<rparr>))) = [(2, 70000)] \<and>
   uncaught (run id
      ([Call_start, Listeners_settled None] @ replicate 65534 (Incoming (\<lparr>req_method = ''GET'', req_url = ''/cit/s''\<rparr>) \<lparr>res_options = [], res_ended = None\<rparr>) @
       [Clock 10000, Device_change ''{}'', Clock 40000])
      (CoapServer (\<lparr>dev_type = ''SHSW-1'', dev_id = ''B929CC'', coapStatusPayload = ''{}'', change_listeners = 0\<rparr>))) = [ERR_OUT_OF_RANGE]"
proof -
  let ?a = "run id [Call_start, Listeners_settled None] (CoapServer (\<lparr>dev_type = ''SHSW-1'', dev_id = ''B929CC'', coapStatusPayload = ''{}'', change_listeners = 0\<rparr>))"
  let ?b = "run id (replicate 65534 (Incoming (\<lparr>req_method = ''GET'', req_url = ''/cit/s''\<rparr>) \<lparr>res_options = [], res_ended = None\<rparr>)) ?a"
  let ?c = "?b\<lparr>now := 10000\<rparr>"
  let ?c' = "?c\<lparr>device := (device ?c)\<lparr>coapStatusPayload := ''{}''\<rparr>\<rparr>"
  let ?d = "fst (broadcastStatus id ?c')"
  let ?e = "(expire id (1, 40000) ?d)\<lparr>now := 40000\<rparr>"
  note fr = run_requests_frame [of id 65534 "\<lparr>req_method = ''GET'', req_url = ''/cit/s''\<rparr>" "\<lparr>res_options = [], res_ended = None\<rparr>" ?a]
  have "1 \<le> serial ?a" "serial ?a + int 65534 \<le> 65536" by (simp_all add: started)
  from run_requests_serial [of "\<lparr>req_method = ''GET'', req_url = ''/cit/s''\<rparr>" ?a 65534 id "\<lparr>res_options = [], res_ended = None\<rparr>", OF _ _ this]
  have sb: "serial ?b = 65536" and nb: "map fst (network ?b) = 0 # replicate 65534 0"
    by (simp_all add: started)
  have tb: "timers ?b = [(0, 30000)]" and wb: "now ?b = 0" and hb: "statusBroadcastTimeout ?b = Some 0"
    and xb: "next_timer ?b = 1" and ub: "uncaught ?b = []"
    and db: "device ?b = (\<lparr>dev_type = ''SHSW-1'', dev_id = ''B929CC'', coapStatusPayload = ''{}'', change_listeners = 0\<rparr>)\<lparr>change_listeners := Suc 0\<rparr>"
    using fr by (simp_all add: started)
  have first: "run id ([Call_start, Listeners_settled None] @ replicate 65534 (Incoming (\<lparr>req_method = ''GET'', req_url = ''/cit/s''\<rparr>) \<lparr>res_options = [], res_ended = None\<rparr>))
      (CoapServer (\<lparr>dev_type = ''SHSW-1'', dev_id = ''B929CC'', coapStatusPayload = ''{}'', change_listeners = 0\<rparr>)) = ?b"
    by (simp only: run_append)
  have c: "advance id 10000 ?b = ?c"
    using advance_idle [of ?b 0 30000 10000 id] tb wb by simp
  have "emit_change id ''{}'' ?c = broadcastStatus id ?c'"
    by (rule emit_change_one) (simp add: db)
  then have d: "fst (emit_change id ''{}'' ?c) = ?d" by simp
  have rc: "0 \<le> serial ?c'" "serial ?c' \<le> 2 ^ 53" by (simp_all add: sb)
  have n3: "Number_of_int 65537 = 65537" using Number_of_int_exact [of 65537] by simp
  have td: "timers ?d = [(1, 40000)]"
    by (simp add: timers_broadcastStatus tb hb xb)
  have wd: "now ?d = 10000" by simp
  have sd: "serial ?d = 65537" by (simp add: sb n3)
  have nd: "network ?d = network ?b"
    using network_broadcastStatus [OF rc, of id] by (simp add: sb)
  have xd: "next_timer ?d = 2" by (simp add: xb)
  have ud: "uncaught ?d = []" by (simp add: ub)
  have e: "advance id 40000 ?d = ?e"
    by (rule advance_fire_once [OF td]) (simp_all add: wd)
  have rd: "0 \<le> serial ?d" "serial ?d \<le> 2 ^ 53" using sd by simp_all
  have ne: "network ?e = network ?b"
    using network_expire [OF rd, of id "(1, 40000)"] sd nd by simp
  have te: "timers ?e = [(2, 70000)]"
    using timers_expire_single [OF td, of id] xd wd by simp
  have ue: "uncaught ?e = [ERR_OUT_OF_RANGE]"
    using uncaught_expire [OF rd, of id "(1, 40000)"] sd ud by simp
  have "run id
      ([Call_start, Listeners_settled None] @ replicate 65534 (Incoming (\<lparr>req_method = ''GET'', req_url = ''/cit/s''\<rparr>) \<lparr>res_options = [], res_ended = None\<rparr>) @
       [Clock 10000, Device_change ''{}'', Clock 40000])
      (CoapServer (\<lparr>dev_type = ''SHSW-1'', dev_id = ''B929CC'', coapStatusPayload = ''{}'', change_listeners = 0\<rparr>)) = run id [Clock 10000, Device_change ''{}'', Clock 40000] ?b"
    by (simp only: run_append)
  also have "\<dots> = advance id 40000 (fst (emit_change id ''{}'' (advance id 10000 ?b)))"
    by (simp add: run_def)
  also have "\<dots> = ?e" by (simp only: c d e)
  finally have last: "run id
      ([Call_start, Listeners_settled None] @ replicate 65534 (Incoming (\<lparr>req_method = ''GET'', req_url = ''/cit/s''\<rparr>) \<lparr>res_options = [], res_ended = None\<rparr>) @
       [Clock 10000, Device_change ''{}'', Clock 40000])
      (CoapServer (\<lparr>dev_type = ''SHSW-1'', dev_id = ''B929CC'', coapStatusPayload = ''{}'', change_listeners = 0\<rparr>)) = ?e" .
  have rep: "0 # replicate 65534 (0 :: nat) = replicate 65535 0"
    using replicate_Suc [of 65534 "0 :: nat"] by simp
  show ?thesis
    unfolding first last by (simp only: sb ne nb te ue rep simp_thms)
qed

text \<open>
  C3, amended. Every call of \<^verbatim>\<open>_broadcastStatus\<close> removes the timer the object holds
  from the pending timers and adds exactly one new timer, due 30000 ms after the call,
  which the object then holds. In every state a server can reach there is at most one
  pending timer, so that after a call it is the only one. A change of the device, with
  the server subscribed, resets the cadence: after a change at time t the only pending
  timer is due at t + 30000; while the clock runs to any time before that nothing more is
  sent; and at t + 30000 the timer fires. While the counter is then at most 65535,
  exactly one announcement is sent, at that time: with the change at 10 s the next
  announcement is at 40 s and there is none at 30 s. With the counter above 65535 the
  callback throws a range error and nothing is sent. In both cases the timer is armed
  again, for t + 60000.
\<close>

theorem C3_single_timer_cadence:
  assumes "r = run f evs (CoapServer dev)"
  shows
  "timers (fst (broadcastStatus f s)) =
     (case statusBroadcastTimeout s of None \<Rightarrow> timers s
      | Some h \<Rightarrow> filter (\<lambda>(h', _). h' \<noteq> h) (timers s)) @ [(next_timer s, now s + 30000)] \<and>
   statusBroadcastTimeout (fst (broadcastStatus f s)) = Some (next_timer s) \<and>
   length (timers r) \<le> 1 \<and>
   timers (fst (broadcastStatus f r)) = [(next_timer r, now r + 30000)] \<and>
   (0 < change_listeners (device r) \<longrightarrow>
      (\<exists>h. timers (fst (emit_change f p r)) = [(h, now r + 30000)]) \<and>
      (t < now r + 30000 \<longrightarrow>
         network (advance f t (fst (emit_change f p r))) = network (fst (emit_change f p r))) \<and>
      (serial (fst (emit_change f p r)) \<le> 65535 \<longrightarrow>
         (\<exists>m b. network (advance f (now r + 30000) (fst (emit_change f p r))) =
            network (fst (emit_change f p r)) @ [(now r + 30000, Announcement m b)])) \<and>
      (65535 < serial (fst (emit_change f p r)) \<longrightarrow>
         network (advance f (now r + 30000) (fst (emit_change f p r))) =
           network (fst (emit_change f p r)) \<and>
         uncaught (advance f (now r + 30000) (fst (emit_change f p r))) =
           uncaught (fst (emit_change f p r)) @ [ERR_OUT_OF_RANGE]) \<and>
      (\<exists>h. timers (advance f (now r + 30000) (fst (emit_change f p r))) = [(h, now r + 60000)]))"
proof -
  have inv: "timer_inv r" "serial_inv r" unfolding assms by (rule inv_reachable)+
  have one: "length (timers r) \<le> 1" using inv(1) by (simp add: timer_inv_def)
  have every: "timers (fst (broadcastStatus f s)) =
     (case statusBroadcastTimeout s of None \<Rightarrow> timers s
      | Some h \<Rightarrow> filter (\<lambda>(h', _). h' \<noteq> h) (timers s)) @ [(next_timer s, now s + 30000)]"
    by (rule timers_broadcastStatus)
  have held: "statusBroadcastTimeout (fst (broadcastStatus f s)) = Some (next_timer s)"
    by simp
  have fresh: "timers (fst (broadcastStatus f r)) = [(next_timer r, now r + 30000)]"
    using inv(1) by (rule timers_broadcastStatus_inv)
  have cadence:
    "0 < change_listeners (device r) \<longrightarrow>
      (\<exists>h. timers (fst (emit_change f p r)) = [(h, now r + 30000)]) \<and>
      (t < now r + 30000 \<longrightarrow>
         network (advance f t (fst (emit_change f p r))) = network (fst (emit_change f p r))) \<and>
      (serial (fst (emit_change f p r)) \<le> 65535 \<longrightarrow>
         (\<exists>m b. network (advance f (now r + 30000) (fst (emit_change f p r))) =
            network (fst (emit_change f p r)) @ [(now r + 30000, Announcement m b)])) \<and>
      (65535 < serial (fst (emit_change f p r)) \<longrightarrow>
         network (advance f (now r + 30000) (fst (emit_change f p r))) =
           network (fst (emit_change f p r)) \<and>
         uncaught (advance f (now r + 30000) (fst (emit_change f p r))) =
           uncaught (fst (emit_change f p r)) @ [ERR_OUT_OF_RANGE]) \<and>
      (\<exists>h. timers (advance f (now r + 30000) (fst (emit_change f p r))) = [(h, now r + 60000)])"
  proof
    assume sub: "0 < change_listeners (device r)"
    let ?e = "fst (emit_change f p r)"
    from timers_emit_change [OF inv(1) sub, of f p]
    obtain h where ts: "timers ?e = [(h, now r + 30000)]" by blast
    have nw: "now ?e = now r" by (simp add: emit_change_frame)
    have "serial_inv ?e" using inv(2) by (rule inv_emit_change)
    then have range: "0 \<le> serial ?e" "serial ?e \<le> 2 ^ 53" by (simp_all add: serial_inv_def)
    have before: "t < now r + 30000 \<longrightarrow> network (advance f t ?e) = network ?e"
      using advance_idle [OF ts, of t f] by simp
    have fire: "advance f (now r + 30000) ?e = (expire f (h, now r + 30000) ?e)\<lparr>now := now r + 30000\<rparr>"
      by (rule advance_fire_once [OF ts]) (simp_all add: nw)
    have sent: "serial ?e \<le> 65535 \<longrightarrow>
         (\<exists>m b. network (advance f (now r + 30000) ?e) =
            network ?e @ [(now r + 30000, Announcement m b)])"
      by (simp add: fire network_expire [OF range] nw)
    have silent: "65535 < serial ?e \<longrightarrow>
         network (advance f (now r + 30000) ?e) = network ?e \<and>
         uncaught (advance f (now r + 30000) ?e) = uncaught ?e @ [ERR_OUT_OF_RANGE]"
      by (simp add: fire network_expire [OF range] uncaught_expire [OF range])
    have "timers (advance f (now r + 30000) ?e) = [(next_timer ?e, now r + 60000)]"
      using timers_expire_single [OF ts, of f] by (simp add: fire nw)
    then have again: "\<exists>h. timers (advance f (now r + 30000) ?e) = [(h, now r + 60000)]"
      by blast
    have armed: "\<exists>h. timers ?e = [(h, now r + 30000)]" using ts by blast
    show "(\<exists>h. timers ?e = [(h, now r + 30000)]) \<and>
      (t < now r + 30000 \<longrightarrow> network (advance f t ?e) = network ?e) \<and>
      (serial ?e \<le> 65535 \<longrightarrow>
         (\<exists>m b. network (advance f (now r + 30000) ?e) =
            network ?e @ [(now r + 30000, Announcement m b)])) \<and>
      (65535 < serial ?e \<longrightarrow>
         network (advance f (now r + 30000) ?e) = network ?e \<and>
         uncaught (advance f (now r + 30000) ?e) = uncaught ?e @ [ERR_OUT_OF_RANGE]) \<and>
      (\<exists>h. timers (advance f (now r + 30000) ?e) = [(h, now r + 60000)])"
      by (intro conjI armed before sent silent again)
  qed
  show ?thesis
    by (intro conjI every held one fresh cadence)
qed

theorem C3_single_timer_cadence_witness:
  "map fst (network (run (\<lambda>p. p)
      [Call_start, Listeners_settled None, Clock 10000, Device_change ''{}'', Clock 39999]
      (CoapServer (\<lparr>dev_type = ''SHSW-1'', dev_id = ''B929CC'', coapStatusPayload = ''{}'', change_listeners = 0\<rparr>)))) = [0, 10000] \<and>
   map fst (network (run (\<lambda>p. p)
      [Call_start, Listeners_settled None, Clock 10000, Device_change ''{}'', Clock 40000]
      (CoapServer (\<lparr>dev_type = ''SHSW-1'', dev_id = ''B929CC'', coapStatusPayload = ''{}'', change_listeners = 0\<rparr>)))) = [0, 10000, 40000]"
proof -
  let ?r1 = "run (\<lambda>p. p) [Call_start, Listeners_settled None] (CoapServer (\<lparr>dev_type = ''SHSW-1'', dev_id = ''B929CC'', coapStatusPayload = ''{}'', change_listeners = 0\<rparr>))"
  let ?r = "run (\<lambda>p. p) [Call_start, Listeners_settled None, Clock 10000] (CoapServer (\<lparr>dev_type = ''SHSW-1'', dev_id = ''B929CC'', coapStatusPayload = ''{}'', change_listeners = 0\<rparr>))"
  let ?e = "fst (emit_change (\<lambda>p. p) ''{}'' ?r)"
  have "?r = advance (\<lambda>p. p) 10000 ?r1" by (simp add: run_def)
  also have "\<dots> = ?r1\<lparr>now := max (now ?r1) 10000\<rparr>"
    by (rule advance_idle [of _ 0 30000]) (simp_all add: started)
  finally have r: "?r = ?r1\<lparr>now := 10000\<rparr>" by (simp add: started)
  have now: "now ?r = 10000" and sub: "0 < change_listeners (device ?r)"
    and sent: "map fst (network ?r) = [0]" and sr: "serial ?r = 2"
    by (simp_all add: r started)
  let ?r' = "?r\<lparr>device := (device ?r)\<lparr>coapStatusPayload := ''{}''\<rparr>\<rparr>"
  have "emit_change (\<lambda>p. p) ''{}'' ?r = broadcastStatus (\<lambda>p. p) ?r'"
    by (rule emit_change_one) (simp add: r started)
  then have ee: "?e = fst (broadcastStatus (\<lambda>p. p) ?r')" by simp
  have rr: "0 \<le> serial ?r'" "serial ?r' \<le> 2 ^ 53" by (simp_all add: sr)
  have e: "map fst (network ?e) = [0, 10000]"
    unfolding ee using network_broadcastStatus [OF rr, of "\<lambda>p. p"] sr now sent by simp
  have n3: "Number_of_int 3 = 3" using Number_of_int_exact [of 3] by simp
  have se: "serial ?e \<le> 65535" unfolding ee using sr by (simp add: n3)
  have t1: "run (\<lambda>p. p)
      [Call_start, Listeners_settled None, Clock 10000, Device_change ''{}'', Clock t]
      (CoapServer (\<lparr>dev_type = ''SHSW-1'', dev_id = ''B929CC'', coapStatusPayload = ''{}'', change_listeners = 0\<rparr>)) = advance (\<lambda>p. p) t ?e" for t
    by (simp add: run_def)
  note c3 = C3_single_timer_cadence [of ?r "\<lambda>p. p" "[Call_start, Listeners_settled None, Clock 10000]"
      "(\<lparr>dev_type = ''SHSW-1'', dev_id = ''B929CC'', coapStatusPayload = ''{}'', change_listeners = 0\<rparr>)" _ "''{}''" 39999, THEN conjunct2, THEN conjunct2, THEN conjunct2, THEN conjunct2]
  from c3 sub now
  have before: "network (advance (\<lambda>p. p) 39999 ?e) = network ?e"
    by simp
  from c3 sub now se
  have at: "\<exists>m b. network (advance (\<lambda>p. p) 40000 ?e) = network ?e @ [(40000, Announcement m b)]"
    by simp
  from at obtain m b where "network (advance (\<lambda>p. p) 40000 ?e) = network ?e @ [(40000, Announcement m b)]"
    by blast
  then have "map fst (network (advance (\<lambda>p. p) 40000 ?e)) = [0, 10000, 40000]"
    by (simp add: e)
  with before e show ?thesis by (simp only: t1)
qed

subsection \<open>A start that fails\<close>

text \<open>
  C6. Let the server be in any state it can reach. If \<^verbatim>\<open>start()\<close> makes a listener and
  that listener fails to bind, then the promise of \<^verbatim>\<open>start()\<close> is rejected with the
  error of a listener that failed, no announcement is sent, and the state is torn down:
  the object holds no listener and no timer, every listener ever made is closed, no timer
  is pending and the device has no subscription of this server. The same holds when the
  rejection arrives after other events: the \<^verbatim>\<open>catch\<close> is \<^verbatim>\<open>stop()\<close>.
\<close>

theorem C6_failed_start_tears_down:
  assumes "r = run f evs (CoapServer dev)"
    and "server r = None \<and> cb1 = ListenError e \<or> multicastServer r = None \<and> cb2 = ListenError e"
  shows
  "\<exists>e'. snd (start f cb1 cb2 r) = Some e' \<and>
        (cb1 = ListenError e' \<or> cb2 = ListenError e') \<and>
        torn_down (fst (start f cb1 cb2 r)) \<and>
        network (fst (start f cb1 cb2 r)) = network r \<and>
        fst (start_settle f (Some e') r) = stop r \<and>
        torn_down (fst (start_settle f (Some e') r))"
proof -
  let ?s2 = "fst (start_sync r)"
  let ?P = "Promise_all [listen_promise (fst (snd (start_sync r))) cb1,
                         listen_promise (snd (snd (start_sync r))) cb2]"
  have invr: "timer_inv r" "endpoint_inv r" unfolding assms(1) by (rule inv_reachable)+
  have inv2: "timer_inv ?s2" "endpoint_inv ?s2" using invr by (simp_all add: inv_start_sync)
  have "\<exists>e'. ?P = Some e' \<and> (cb1 = ListenError e' \<or> cb2 = ListenError e')"
    using assms(2)
    by (cases cb1; cases cb2) (auto simp: listen_promise_def start_sync_created)
  then obtain e' where P: "?P = Some e'" and which: "cb1 = ListenError e' \<or> cb2 = ListenError e'"
    by blast
  have st: "start f cb1 cb2 r = (stop ?s2, Some e')"
    by (simp add: start_eq P start_settle_def)
  have "torn_down (stop ?s2)" using inv2 by (rule stop_torn_down)
  moreover have "torn_down (stop r)" using invr by (rule stop_torn_down)
  ultimately show ?thesis using which by (simp add: st start_settle_def)
qed

theorem C6_failed_start_tears_down_witness:
  "snd (start (\<lambda>p. p) Listening (ListenError (Error ''EADDRINUSE'')) (CoapServer (\<lparr>dev_type = ''SHSW-1'', dev_id = ''B929CC'', coapStatusPayload = ''{}'', change_listeners = 0\<rparr>))) =
     Some (Error ''EADDRINUSE'') \<and>
   torn_down (fst (start (\<lambda>p. p) Listening (ListenError (Error ''EADDRINUSE'')) (CoapServer (\<lparr>dev_type = ''SHSW-1'', dev_id = ''B929CC'', coapStatusPayload = ''{}'', change_listeners = 0\<rparr>)))) \<and>
   length (endpoints (fst (start (\<lambda>p. p) Listening (ListenError (Error ''EADDRINUSE'')) (CoapServer (\<lparr>dev_type = ''SHSW-1'', dev_id = ''B929CC'', coapStatusPayload = ''{}'', change_listeners = 0\<rparr>))))) = 2"
proof -
  have none: "multicastServer (CoapServer (\<lparr>dev_type = ''SHSW-1'', dev_id = ''B929CC'', coapStatusPayload = ''{}'', change_listeners = 0\<rparr>)) = None \<and>
      ListenError (Error ''EADDRINUSE'') = ListenError (Error ''EADDRINUSE'')"
    by (simp add: CoapServer_def)
  have two: "length (endpoints (fst (start (\<lambda>p. p) Listening (ListenError (Error ''EADDRINUSE''))
      (CoapServer (\<lparr>dev_type = ''SHSW-1'', dev_id = ''B929CC'', coapStatusPayload = ''{}'', change_listeners = 0\<rparr>))))) = 2"
    by (simp add: start_eq start_settle_def listen_promise_def start_sync_created)
      (simp add: CoapServer_def start_sync_def startServer_def startMulticastServer_def
        createServer_def on_request_def Let_def)
  from C6_failed_start_tears_down [of "CoapServer (\<lparr>dev_type = ''SHSW-1'', dev_id = ''B929CC'', coapStatusPayload = ''{}'', change_listeners = 0\<rparr>)" "\<lambda>p. p" "[]" "(\<lparr>dev_type = ''SHSW-1'', dev_id = ''B929CC'', coapStatusPayload = ''{}'', change_listeners = 0\<rparr>)"
      Listening "Error ''EADDRINUSE''" "ListenError (Error ''EADDRINUSE'')"] none two
  show ?thesis by (auto simp: run_Nil)
qed

subsection \<open>Stop while a start is pending\<close>

text \<open>
  C7. \<^verbatim>\<open>stop()\<close> has no \<^verbatim>\<open>throw\<close>, and when it returns the state is torn down, also
  when a \<^verbatim>\<open>start()\<close> is pending and when it is called twice. But it does not cancel the
  pending \<^verbatim>\<open>start()\<close>. Take a server that is started, call \<^verbatim>\<open>start()\<close> again and then
  \<^verbatim>\<open>stop()\<close> before the promise of that call is settled. Both listeners exist, so the
  promise is fulfilled, and its \<^verbatim>\<open>then\<close> runs after \<^verbatim>\<open>stop()\<close> has returned: it sends
  an announcement and arms timer 1, due at 30000, on a server that holds no listener; at
  30000 the timer fires and the next announcement is sent.
\<close>

theorem C7_stop_does_not_cancel_pending_start:
  "stop (stop s) = stop s \<and>
   torn_down (stop (fst (start_sync (fst (start f Listening Listening (CoapServer dev)))))) \<and>
   timers (fst (start_settle f None
      (stop (fst (start_sync (fst (start f Listening Listening (CoapServer dev)))))))) = [(1, 30000)] \<and>
   server (fst (start_settle f None
      (stop (fst (start_sync (fst (start f Listening Listening (CoapServer dev)))))))) = None \<and>
   map fst (network (advance f 30000 (fst (start_settle f None
      (stop (fst (start_sync (fst (start f Listening Listening (CoapServer dev)))))))))) =
     [0, 0, 30000]"
proof -
  let ?a = "run f [Call_start, Listeners_settled None] (CoapServer dev)"
  let ?b = "fst (start_sync ?a)"
  let ?c = "stop ?b"
  let ?d = "fst (broadcastStatus f ?c)"
  have inva: "timer_inv ?a" "endpoint_inv ?a" by (rule inv_reachable)+
  then have invb: "timer_inv ?b" "endpoint_inv ?b" by (simp_all add: inv_start_sync)
  then have down: "torn_down ?c" by (rule stop_torn_down)
  have invc: "timer_inv ?c" using invb(1) by (rule inv_stop)
  have sc: "serial ?c = 2" by (simp add: started)
  then have rc: "0 \<le> serial ?c" "serial ?c \<le> 65535" "serial ?c \<le> 2 ^ 53" by simp_all
  have settle: "start_settle f None ?c = (?d, None)" using rc(1,2) by (rule start_settle_sends)
  have td: "timers ?d = [(1, 30000)]"
    by (simp add: timers_broadcastStatus_inv [OF invc] started)
  have nd: "map fst (network ?d) = [0, 0]" "now ?d = 0"
    by (simp_all add: network_broadcastStatus [OF rc(1,3)] sc started)
  have "Number_of_int 3 = 3" using Number_of_int_exact [of 3] by simp
  then have sd: "serial ?d = 3" by (simp add: started)
  then have rd: "0 \<le> serial ?d" "serial ?d \<le> 2 ^ 53" by simp_all
  have "advance f 30000 ?d = (expire f (1, 30000) ?d)\<lparr>now := 30000\<rparr>"
    by (rule advance_fire_once [OF td]) (simp_all add: started)
  then have "map fst (network (advance f 30000 ?d)) = [0, 0, 30000]"
    using sd nd by (simp add: network_expire [OF rd] started)
  with down td show ?thesis
    by (simp add: start_fresh settle stop_idem)
qed

theorem C7_stop_does_not_cancel_pending_start_witness:
  "timers (fst (start_settle (\<lambda>p. p) None
      (stop (fst (start_sync (fst (start (\<lambda>p. p) Listening Listening
        (CoapServer \<lparr>dev_type = ''SHSW-1'', dev_id = ''B929CC'', coapStatusPayload = ''{}'', change_listeners = 0\<rparr>)))))))) = [(1, 30000)] \<and>
   map fst (network (advance (\<lambda>p. p) 30000 (fst (start_settle (\<lambda>p. p) None
      (stop (fst (start_sync (fst (start (\<lambda>p. p) Listening Listening
        (CoapServer \<lparr>dev_type = ''SHSW-1'', dev_id = ''B929CC'', coapStatusPayload = ''{}'', change_listeners = 0\<rparr>)))))))))) = [0, 0, 30000]"
  using C7_stop_does_not_cancel_pending_start [of "CoapServer \<lparr>dev_type = ''SHSW-1'', dev_id = ''B929CC'', coapStatusPayload = ''{}'', change_listeners = 0\<rparr>" "\<lambda>p. p" "\<lparr>dev_type = ''SHSW-1'', dev_id = ''B929CC'', coapStatusPayload = ''{}'', change_listeners = 0\<rparr>"]
  by simp
end
